theory Spec2Isabelle
  imports Main "HOL-Library.Sublist" "HOL-Library.Word"
begin

section \<open>JavaScript strings\<close>

text \<open>
  The server (\<^verbatim>\<open>server/index.js\<close>) works on JavaScript strings. They are modelled as
  \<^typ>\<open>string\<close>, a list of characters, and an index counts characters from 0, as
  \<^verbatim>\<open>indexOf\<close>, \<^verbatim>\<open>lastIndexOf\<close> and \<^verbatim>\<open>substring\<close> do. The functions below are the
  library methods the server calls, with the result JavaScript gives on every input
  (\<open>-1\<close> for a pattern that does not occur, indices clamped by \<^verbatim>\<open>substring\<close>).
\<close>

definition startsWith :: "string \<Rightarrow> string \<Rightarrow> bool" where
  "startsWith s p = (take (length p) s = p)"

definition endsWith :: "string \<Rightarrow> string \<Rightarrow> bool" where
  "endsWith s p = (length p \<le> length s \<and> drop (length s - length p) s = p)"

fun indexOf_from :: "string \<Rightarrow> string \<Rightarrow> nat \<Rightarrow> int" where
  "indexOf_from [] p i = (if p = [] then int i else - 1)"
| "indexOf_from (c # cs) p i =
     (if startsWith (c # cs) p then int i else indexOf_from cs p (Suc i))"

definition indexOf :: "string \<Rightarrow> string \<Rightarrow> int" where
  "indexOf s p = indexOf_from s p 0"

fun lastIndexOf_from :: "string \<Rightarrow> string \<Rightarrow> nat \<Rightarrow> int" where
  "lastIndexOf_from [] p i = (if p = [] then int i else - 1)"
| "lastIndexOf_from (c # cs) p i =
     (let r = lastIndexOf_from cs p (Suc i)
      in if 0 \<le> r then r else if startsWith (c # cs) p then int i else - 1)"

definition lastIndexOf :: "string \<Rightarrow> string \<Rightarrow> int" where
  "lastIndexOf s p = lastIndexOf_from s p 0"

definition includes_str :: "string \<Rightarrow> string \<Rightarrow> bool" where
  "includes_str s p = (0 \<le> indexOf s p)"

text \<open>\<^verbatim>\<open>s.substring(a)\<close> and \<^verbatim>\<open>s.substring(a, b)\<close>: a negative index counts as 0, an
  index beyond the end as the length, and the two are swapped when \<open>a > b\<close>.\<close>

definition substring_from :: "string \<Rightarrow> int \<Rightarrow> string" where
  "substring_from s a = drop (nat a) s"

definition substring :: "string \<Rightarrow> int \<Rightarrow> int \<Rightarrow> string" where
  "substring s a b =
     (let a' = min (nat a) (length s); b' = min (nat b) (length s);
          lo = min a' b'; hi = max a' b'
      in take (hi - lo) (drop lo s))"

text \<open>\<^verbatim>\<open>toLowerCase\<close> on the letters A to Z; every other character is left as it is.
  The only use is the comparison with the ten lower-case tags of \<open>dynamicTags\<close>.\<close>

definition toLowerChar :: "char \<Rightarrow> char" where
  "toLowerChar c =
     (case map_of (zip ''ABCDEFGHIJKLMNOPQRSTUVWXYZ'' ''abcdefghijklmnopqrstuvwxyz'') c of
        Some l \<Rightarrow> l
      | None \<Rightarrow> c)"

definition toLowerCase :: "string \<Rightarrow> string" where
  "toLowerCase s = map toLowerChar s"

section \<open>Image reference parser\<close>

record image_ref =
  registry :: string
  repository :: string
  tag :: string

definition dockerHub :: string where
  "dockerHub = ''registry-1.docker.io''"

text \<open>\<^verbatim>\<open>parseImageName\<close>, lines 75 to 103. The three \<^verbatim>\<open>let\<close> variables of the source
  are reassigned in three steps; each step is one binding here.\<close>

definition parseImageName :: "string \<Rightarrow> image_ref" where
  "parseImageName imageName =
     (let tagIndex = lastIndexOf imageName '':'';
          (tag1, repository1) =
            (if 0 < tagIndex \<and> \<not> includes_str (substring_from imageName tagIndex) ''/''
             then (substring_from imageName (tagIndex + 1), substring imageName 0 tagIndex)
             else (''latest'', imageName));
          firstSlash = indexOf repository1 ''/'';
          (registry2, repository2) =
            (if 0 < firstSlash
             then (let potential = substring repository1 0 firstSlash
                   in if includes_str potential ''.'' \<or> includes_str potential '':''
                      then (potential, substring_from repository1 (firstSlash + 1))
                      else (dockerHub, repository1))
             else (dockerHub, repository1));
          repository3 =
            (if registry2 = ''registry-1.docker.io'' \<and> \<not> includes_str repository2 ''/''
             then ''library/'' @ repository2
             else repository2)
      in \<lparr>registry = registry2, repository = repository3, tag = tag1\<rparr>)"

section \<open>Tag classifier\<close>

definition dynamicTags :: "string list" where
  "dynamicTags =
     [''latest'', ''stable'', ''main'', ''master'', ''edge'', ''dev'', ''nightly'',
      ''beta'', ''alpha'', ''rc'']"

definition isDigit :: "char \<Rightarrow> bool" where
  "isDigit c = (c \<in> set ''0123456789'')"

text \<open>\<^verbatim>\<open>/\d/.test(tag)\<close>: some character of the tag is a digit.\<close>

definition test_digit :: "string \<Rightarrow> bool" where
  "test_digit s = list_ex isDigit s"

text \<open>\<^verbatim>\<open>tag.match(/^v?\d/)\<close>: the tag starts with a digit, or with \<open>v\<close> and a digit.\<close>

fun match_v_digit :: "string \<Rightarrow> bool" where
  "match_v_digit [] = False"
| "match_v_digit (c # cs) =
     (if c = CHR ''v'' then (case cs of [] \<Rightarrow> False | d # _ \<Rightarrow> isDigit d) else isDigit c)"

definition isPinnedVersionTag :: "string \<Rightarrow> bool" where
  "isPinnedVersionTag t =
     (if toLowerCase t \<in> set dynamicTags then False
      else if test_digit t \<and> (includes_str t ''.'' \<or> includes_str t ''-'' \<or> match_v_digit t)
      then True
      else False)"

section \<open>Self-update guard\<close>

text \<open>The test of lines 752 and 943. \<open>ownId\<close> is what \<^verbatim>\<open>getOwnContainerId\<close> returned:
  \<open>None\<close> is \<^verbatim>\<open>null\<close>. A value is truthy when it is neither \<^verbatim>\<open>null\<close> nor the empty
  string.\<close>

definition isSelfUpdate :: "string option \<Rightarrow> string \<Rightarrow> bool" where
  "isSelfUpdate ownId containerId =
     (case ownId of
        None \<Rightarrow> False
      | Some own \<Rightarrow>
          own \<noteq> [] \<and>
          (containerId = own \<or> startsWith containerId (substring own 0 12)
           \<or> startsWith own containerId))"

section \<open>Log frame demuxer\<close>

text \<open>
  The loop of the log endpoint, lines 570 to 594, over the bytes of the buffer. The two
  library calls on the payload, \<^verbatim>\<open>toString('utf8')\<close> and \<^verbatim>\<open>trim()\<close>, belong to the
  runtime and are parameters of the loop. \<^verbatim>\<open>Buffer.slice\<close> and an index read clamp or
  give \<^verbatim>\<open>undefined\<close> outside the buffer, and \<^verbatim>\<open>readUInt32BE\<close> throws; here every read
  outside the buffer is the value \<open>ReadPastEnd\<close>, so that a result \<open>Inr\<close> says that no
  read left the buffer.
\<close>

type_synonym byte = "8 word"

datatype buffer_error = ReadPastEnd

record logLine =
  stream :: string
  message :: string

definition buffer_slice :: "byte list \<Rightarrow> nat \<Rightarrow> nat \<Rightarrow> buffer_error + byte list" where
  "buffer_slice b start end =
     (if start \<le> end \<and> end \<le> length b then Inr (take (end - start) (drop start b))
      else Inl ReadPastEnd)"

definition byteAt :: "byte list \<Rightarrow> nat \<Rightarrow> buffer_error + byte" where
  "byteAt b i = (if i < length b then Inr (b ! i) else Inl ReadPastEnd)"

definition readUInt32BE :: "byte list \<Rightarrow> nat \<Rightarrow> buffer_error + nat" where
  "readUInt32BE b off =
     (if off + 4 \<le> length b
      then Inr (unat (b ! off) * 2 ^ 24 + unat (b ! (off + 1)) * 2 ^ 16
                + unat (b ! (off + 2)) * 2 ^ 8 + unat (b ! (off + 3)))
      else Inl ReadPastEnd)"

function demux_loop ::
  "(byte list \<Rightarrow> string) \<Rightarrow> (string \<Rightarrow> string) \<Rightarrow> byte list \<Rightarrow> nat \<Rightarrow> logLine list
     \<Rightarrow> buffer_error + logLine list" where
  "demux_loop toStringUtf8 trim buffer offset logLines =
     (if offset < length buffer then
        (if offset + 8 > length buffer then Inr logLines
         else
           (case buffer_slice buffer offset (offset + 8) of
              Inl e \<Rightarrow> Inl e
            | Inr header \<Rightarrow>
               (case byteAt header 0 of
                  Inl e \<Rightarrow> Inl e
                | Inr streamType \<Rightarrow>
                   (case readUInt32BE header 4 of
                      Inl e \<Rightarrow> Inl e
                    | Inr payloadSize \<Rightarrow>
                       (if offset + 8 + payloadSize > length buffer then Inr logLines
                        else
                          (case buffer_slice buffer (offset + 8) (offset + 8 + payloadSize) of
                             Inl e \<Rightarrow> Inl e
                           | Inr payload \<Rightarrow>
                              (let line = trim (toStringUtf8 payload)
                               in demux_loop toStringUtf8 trim buffer (offset + 8 + payloadSize)
                                    (if line \<noteq> []
                                     then logLines @
                                          [\<lparr>stream = (if streamType = 1 then ''stdout'' else ''stderr''),
                                            message = line\<rparr>]
                                     else logLines))))))))
      else Inr logLines)"
  by pat_completeness auto
termination
  by (relation "measure (\<lambda>(d, t, buffer, offset, logLines). length buffer - offset)") auto

declare demux_loop.simps [simp del]

definition demux :: "(byte list \<Rightarrow> string) \<Rightarrow> (string \<Rightarrow> string) \<Rightarrow> byte list
     \<Rightarrow> buffer_error + logLine list" where
  "demux toStringUtf8 trim buffer = demux_loop toStringUtf8 trim buffer 0 []"


definition be32 :: "byte \<Rightarrow> byte \<Rightarrow> byte \<Rightarrow> byte \<Rightarrow> nat" where
  "be32 b4 b5 b6 b7 = unat b4 * 2 ^ 24 + unat b5 * 2 ^ 16 + unat b6 * 2 ^ 8 + unat b7"

datatype frame = Frame byte byte byte byte byte byte byte byte "byte list"

fun frame_bytes :: "frame \<Rightarrow> byte list" where
  "frame_bytes (Frame t r1 r2 r3 b4 b5 b6 b7 p) = [t, r1, r2, r3, b4, b5, b6, b7] @ p"

fun complete_frame :: "frame \<Rightarrow> bool" where
  "complete_frame (Frame t r1 r2 r3 b4 b5 b6 b7 p) \<longleftrightarrow> length p = be32 b4 b5 b6 b7"

definition emit_line ::
  "(byte list \<Rightarrow> string) \<Rightarrow> (string \<Rightarrow> string) \<Rightarrow> byte \<Rightarrow> byte list \<Rightarrow> logLine list" where
  "emit_line toStringUtf8 trim t p =
     (if trim (toStringUtf8 p) \<noteq> []
      then [\<lparr>stream = (if t = 1 then ''stdout'' else ''stderr''),
             message = trim (toStringUtf8 p)\<rparr>]
      else [])"

fun emitted :: "(byte list \<Rightarrow> string) \<Rightarrow> (string \<Rightarrow> string) \<Rightarrow> frame \<Rightarrow> logLine list" where
  "emitted toStringUtf8 trim (Frame t r1 r2 r3 b4 b5 b6 b7 p) = emit_line toStringUtf8 trim t p"

definition truncated_tail :: "byte list \<Rightarrow> bool" where
  "truncated_tail t \<longleftrightarrow>
     length t < 8 \<or> length t < 8 + be32 (t ! 4) (t ! 5) (t ! 6) (t ! 7)"

section \<open>The server's state and its environment\<close>

text \<open>
  The server keeps three module-level variables that the claims are about
  (\<^verbatim>\<open>updateCache\<close>, \<^verbatim>\<open>updateLogs\<close>, \<^verbatim>\<open>logIdCounter\<close>) and the memo \<^verbatim>\<open>ownContainerId\<close>.
  Everything it asks of the outside (the Docker daemon, the registry, the clock) is
  recorded, in order, in \<open>trace\<close>. The outside is a \<open>world\<close>: for each request, a
  function from the requests made so far to the answer, so that the same request may be
  answered differently later. A rejected promise or a thrown exception is \<open>Inl\<close> of the
  error, whose only content the server reads is its message.
\<close>

datatype js_error = JsError string

fun error_message :: "js_error \<Rightarrow> string" where
  "error_message (JsError m) = m"

datatype json =
    JNull
  | JUndefined
  | JBool bool
  | JNum int
  | JStr string
  | JArr "json list"
  | JObj "(string \<times> json) list"

text \<open>A property read \<^verbatim>\<open>o.k\<close> of an object given by its properties in order.\<close>

definition get_prop :: "(string \<times> json) list \<Rightarrow> string \<Rightarrow> json" where
  "get_prop obj k = (case map_of obj k of None \<Rightarrow> JUndefined | Some v \<Rightarrow> v)"

text \<open>What the server reads of \<^verbatim>\<open>container.inspect()\<close>: \<^verbatim>\<open>info.Name\<close>, \<^verbatim>\<open>info.Image\<close> (the
  image ID), \<^verbatim>\<open>info.Config.Image\<close>, the other properties of \<^verbatim>\<open>info.Config\<close>,
  \<^verbatim>\<open>info.HostConfig\<close> and \<^verbatim>\<open>info.NetworkSettings.Networks\<close>.\<close>

record container_info =
  Name :: string
  Image :: string
  Config_Image :: string
  Config :: "(string \<times> json) list"
  HostConfig :: json
  Networks :: json

text \<open>An element of \<^verbatim>\<open>docker.listContainers()\<close>: \<^verbatim>\<open>Id\<close> and \<^verbatim>\<open>Names\<close>.\<close>

record container_summary =
  container_Id :: string
  Names :: "string list"

text \<open>An element of \<^verbatim>\<open>docker.listImages()\<close>; \<open>None\<close> is a \<^verbatim>\<open>null\<close> list.\<close>

record image_summary =
  image_Id :: string
  RepoTags :: "string list option"
  RepoDigests :: "string list option"

datatype event =
    EvClock
  | EvTokenRequest string
  | EvManifestRequest string string string "string option"
  | EvListImages
  | EvListContainers bool
  | EvInspect string
  | EvPull string
  | EvStop string
  | EvRemove string
  | EvCreate "(string \<times> json) list"
  | EvStart string

text \<open>The answer to a manifest request: a response with its status code and its
  \<^verbatim>\<open>docker-content-digest\<close> header, a network error, or no answer within 15 seconds.\<close>

datatype http_outcome =
    Response nat "string option"
  | RequestError js_error
  | RequestTimeout

record world =
  dateNow :: "event list \<Rightarrow> int"
  toISOString :: "event list \<Rightarrow> string"
  tokenResponse :: "event list \<Rightarrow> string \<Rightarrow> js_error + string option"
  manifestResponse ::
    "event list \<Rightarrow> string \<Rightarrow> string \<Rightarrow> string \<Rightarrow> string option \<Rightarrow> http_outcome"
  listImagesResponse :: "event list \<Rightarrow> js_error + image_summary list"
  listContainersResponse :: "event list \<Rightarrow> bool \<Rightarrow> js_error + container_summary list"
  inspectResponse :: "event list \<Rightarrow> string \<Rightarrow> js_error + container_info"
  pullResponse :: "event list \<Rightarrow> string \<Rightarrow> js_error + unit"
  stopResponse :: "event list \<Rightarrow> string \<Rightarrow> js_error + unit"
  removeResponse :: "event list \<Rightarrow> string \<Rightarrow> js_error + unit"
  createResponse :: "event list \<Rightarrow> (string \<times> json) list \<Rightarrow> js_error + string"
  startResponse :: "event list \<Rightarrow> string \<Rightarrow> js_error + unit"
  cgroupFile :: "js_error + string"
  hostname :: string

text \<open>
  The result objects of \<^verbatim>\<open>checkImageUpdate\<close>. The source builds three object literals:
  \<^item> \<open>NoTagResult\<close>, line 265: \<^verbatim>\<open>{ hasUpdate: false, error: 'No image tag' }\<close>;
  \<^item> \<open>FullResult\<close>, lines 347 to 356: \<^verbatim>\<open>hasUpdate\<close>, \<^verbatim>\<open>checkedAt\<close>, \<^verbatim>\<open>remoteDigest\<close>,
    \<^verbatim>\<open>localDigest\<close>, \<^verbatim>\<open>localImageId\<close>, \<^verbatim>\<open>latestDigest\<close>, \<^verbatim>\<open>isPinnedVersion\<close>, in this
    order, and \<^verbatim>\<open>error: null\<close>;
  \<^item> \<open>ErrorResult\<close>, lines 364 to 369: \<^verbatim>\<open>hasUpdate: false\<close>, \<^verbatim>\<open>checkedAt\<close>, \<^verbatim>\<open>localImageId\<close>,
    \<^verbatim>\<open>error\<close>.
  A digest that is \<open>None\<close> is \<^verbatim>\<open>null\<close>.
\<close>

datatype check_result =
    NoTagResult
  | FullResult bool int string "string option" string "string option" bool
  | ErrorResult int string string


fun hasUpdate_of :: "check_result \<Rightarrow> bool" where
  "hasUpdate_of NoTagResult = False"
| "hasUpdate_of (FullResult h t rd ld li lt p) = h"
| "hasUpdate_of (ErrorResult t li e) = False"

text \<open>\<open>None\<close> where the object has no such property (\<^verbatim>\<open>undefined\<close>).\<close>

fun checkedAt_of :: "check_result \<Rightarrow> int option" where
  "checkedAt_of NoTagResult = None"
| "checkedAt_of (FullResult h t rd ld li lt p) = Some t"
| "checkedAt_of (ErrorResult t li e) = Some t"

fun localImageId_of :: "check_result \<Rightarrow> string option" where
  "localImageId_of NoTagResult = None"
| "localImageId_of (FullResult h t rd ld li lt p) = Some li"
| "localImageId_of (ErrorResult t li e) = Some li"


text \<open>An entry of \<^verbatim>\<open>updateLogs\<close>, lines 758 to 768. The properties \<^verbatim>\<open>id\<close> and
  \<^verbatim>\<open>message\<close> are \<open>log_id\<close> and \<open>log_message\<close> here.\<close>

record log_entry =
  log_id :: string
  timestamp :: string
  containerName :: string
  oldImage :: string
  oldImageId :: string
  newImage :: string
  newImageId :: string
  status :: string
  log_message :: string

record server_state =
  updateCache :: "string \<rightharpoonup> check_result"
  updateLogs :: "log_entry list"
  logIdCounter :: int
  ownContainerId :: "string option"
  trace :: "event list"

text \<open>The state at start-up, lines 56, 376, 377 and 698.\<close>

definition initial_state :: server_state where
  "initial_state =
     \<lparr>updateCache = Map.empty, updateLogs = [], logIdCounter = 1,
      ownContainerId = None, trace = []\<rparr>"

definition emit :: "event \<Rightarrow> server_state \<Rightarrow> server_state" where
  "emit e s = s\<lparr>trace := trace s @ [e]\<rparr>"

definition now :: "world \<Rightarrow> server_state \<Rightarrow> int \<times> server_state" where
  "now w s = (dateNow w (trace s), emit EvClock s)"

definition isoNow :: "world \<Rightarrow> server_state \<Rightarrow> string \<times> server_state" where
  "isoNow w s = (toISOString w (trace s), emit EvClock s)"

definition listImages :: "world \<Rightarrow> server_state \<Rightarrow> (js_error + image_summary list) \<times> server_state" where
  "listImages w s = (listImagesResponse w (trace s), emit EvListImages s)"

definition listContainers ::
  "world \<Rightarrow> bool \<Rightarrow> server_state \<Rightarrow> (js_error + container_summary list) \<times> server_state" where
  "listContainers w all s = (listContainersResponse w (trace s) all, emit (EvListContainers all) s)"

definition inspect :: "world \<Rightarrow> string \<Rightarrow> server_state \<Rightarrow> (js_error + container_info) \<times> server_state" where
  "inspect w containerId s = (inspectResponse w (trace s) containerId, emit (EvInspect containerId) s)"

definition pull :: "world \<Rightarrow> string \<Rightarrow> server_state \<Rightarrow> (js_error + unit) \<times> server_state" where
  "pull w imageName s = (pullResponse w (trace s) imageName, emit (EvPull imageName) s)"

definition stop :: "world \<Rightarrow> string \<Rightarrow> server_state \<Rightarrow> (js_error + unit) \<times> server_state" where
  "stop w containerId s = (stopResponse w (trace s) containerId, emit (EvStop containerId) s)"

definition remove_container ::
  "world \<Rightarrow> string \<Rightarrow> server_state \<Rightarrow> (js_error + unit) \<times> server_state" where
  "remove_container w containerId s =
     (removeResponse w (trace s) containerId, emit (EvRemove containerId) s)"

definition createContainer ::
  "world \<Rightarrow> (string \<times> json) list \<Rightarrow> server_state \<Rightarrow> (js_error + string) \<times> server_state" where
  "createContainer w containerConfig s =
     (createResponse w (trace s) containerConfig, emit (EvCreate containerConfig) s)"

definition start :: "world \<Rightarrow> string \<Rightarrow> server_state \<Rightarrow> (js_error + unit) \<times> server_state" where
  "start w containerId s = (startResponse w (trace s) containerId, emit (EvStart containerId) s)"

text \<open>Truthiness of a value that is a string, \<^verbatim>\<open>null\<close> or \<^verbatim>\<open>undefined\<close>.\<close>

definition truthy :: "string option \<Rightarrow> bool" where
  "truthy v = (case v of None \<Rightarrow> False | Some x \<Rightarrow> x \<noteq> [])"

text \<open>\<^verbatim>\<open>String(n)\<close> of an integer.\<close>

fun digits_of :: "nat \<Rightarrow> string" where
  "digits_of n =
     (if n < 10 then [''0123456789'' ! n]
      else digits_of (n div 10) @ [''0123456789'' ! (n mod 10)])"

definition String_num :: "int \<Rightarrow> string" where
  "String_num i = (if i < 0 then ''-'' @ digits_of (nat (- i)) else digits_of (nat i))"

text \<open>\<^verbatim>\<open>s.replace(p, r)\<close> with a string pattern: the first occurrence only.\<close>

definition replace_first :: "string \<Rightarrow> string \<Rightarrow> string \<Rightarrow> string" where
  "replace_first s p r =
     (let i = indexOf s p
      in if i < 0 then s else take (nat i) s @ r @ drop (nat i + length p) s)"

text \<open>\<^verbatim>\<open>s.replace(/^\//, '')\<close>: one leading slash is dropped.\<close>

definition strip_slash :: "string \<Rightarrow> string" where
  "strip_slash s = (case s of [] \<Rightarrow> [] | c # cs \<Rightarrow> if c = CHR ''/'' then cs else s)"

text \<open>\<^verbatim>\<open>s.split(c)[1]\<close> for a string that contains \<open>c\<close>: what stands between the first
  and the second \<open>c\<close>.\<close>

definition split_second :: "string \<Rightarrow> char \<Rightarrow> string" where
  "split_second s c = takeWhile (\<lambda>x. x \<noteq> c) (drop 1 (dropWhile (\<lambda>x. x \<noteq> c) s))"

section \<open>Registry client\<close>

definition getDockerHubToken ::
  "world \<Rightarrow> string \<Rightarrow> server_state \<Rightarrow> (js_error + string option) \<times> server_state" where
  "getDockerHubToken w repo s = (tokenResponse w (trace s) repo, emit (EvTokenRequest repo) s)"

text \<open>The error of lines 222 to 228 for a response without a digest.\<close>

definition digest_error :: "nat \<Rightarrow> js_error" where
  "digest_error statusCode =
     (if statusCode = 401 then JsError ''Unauthorized - private image or auth required''
      else if statusCode = 404 then JsError ''Image not found in registry''
      else JsError (''Failed to get digest: '' @ String_num (int statusCode)))"

text \<open>\<^verbatim>\<open>getRemoteDigest\<close>, lines 189 to 242. The token starts as the empty string; the
  \<^verbatim>\<open>Authorization\<close> header is sent when the token is truthy. The promise resolves
  with the digest header when that is truthy.\<close>

definition getRemoteDigest ::
  "world \<Rightarrow> string \<Rightarrow> server_state \<Rightarrow> (js_error + string) \<times> server_state" where
  "getRemoteDigest w imageName s =
     (let r = parseImageName imageName;
          (tok, s1) =
            (if registry r = ''registry-1.docker.io'' then getDockerHubToken w (repository r) s
             else (Inr (Some []), s))
      in case tok of
           Inl e \<Rightarrow> (Inl e, s1)
         | Inr token \<Rightarrow>
             (let auth = (if truthy token then token else None);
                  s2 = emit (EvManifestRequest (registry r) (repository r) (tag r) auth) s1
              in case manifestResponse w (trace s1) (registry r) (repository r) (tag r) auth of
                   Response statusCode digest \<Rightarrow>
                     (case digest of
                        Some d \<Rightarrow>
                          if d \<noteq> [] then (Inr d, s2) else (Inl (digest_error statusCode), s2)
                      | None \<Rightarrow> (Inl (digest_error statusCode), s2))
                 | RequestError e \<Rightarrow> (Inl e, s2)
                 | RequestTimeout \<Rightarrow> (Inl (JsError ''Request timeout''), s2)))"

section \<open>Update detector\<close>

definition CACHE_TTL :: int where
  "CACHE_TTL = 5 * 60 * 1000"

text \<open>The test of lines 297 to 303 on the tags of one local image.\<close>

definition matchesName :: "string \<Rightarrow> string list \<Rightarrow> bool" where
  "matchesName imageName repoTags =
     list_ex (\<lambda>t. t = imageName
                \<or> (t = imageName @ '':latest'' \<and> \<not> includes_str imageName '':'')
                \<or> (endsWith imageName '':latest'' \<and> t = replace_first imageName '':latest'' []))
       repoTags"

text \<open>Line 306.\<close>

definition matchesId :: "string \<Rightarrow> string \<Rightarrow> bool" where
  "matchesId imgId localImageId \<longleftrightarrow>
     imgId = localImageId
     \<or> replace_first imgId ''sha256:'' [] = replace_first localImageId ''sha256:'' []"

text \<open>The loops of lines 292 to 319: the first local image that matches by name or by
  ID decides; its digest is taken from its first repo digest that contains \<^verbatim>\<open>@sha256:\<close>.\<close>

definition findLocalDigest :: "image_summary list \<Rightarrow> string \<Rightarrow> string \<Rightarrow> string option" where
  "findLocalDigest localImages imageName localImageId =
     (case find (\<lambda>img. matchesName imageName (case RepoTags img of None \<Rightarrow> [] | Some ts \<Rightarrow> ts)
                        \<or> matchesId (image_Id img) localImageId) localImages of
        None \<Rightarrow> None
      | Some img \<Rightarrow>
          (case find (\<lambda>rd. includes_str rd ''@sha256:'')
                  (case RepoDigests img of None \<Rightarrow> [] | Some ds \<Rightarrow> ds) of
             None \<Rightarrow> None
           | Some rd \<Rightarrow> Some (split_second rd CHR ''@'')))"

text \<open>The body of the \<^verbatim>\<open>try\<close> block, lines 284 to 361: \<open>Inl\<close> is an exception that
  leaves the block.\<close>

definition checkImageUpdate_try ::
  "world \<Rightarrow> string \<Rightarrow> string \<Rightarrow> image_ref \<Rightarrow> bool \<Rightarrow> server_state
     \<Rightarrow> (js_error + check_result) \<times> server_state" where
  "checkImageUpdate_try w imageName localImageId r isPinned s =
     (case getRemoteDigest w imageName s of
        (Inl e, s1) \<Rightarrow> (Inl e, s1)
      | (Inr remoteDigest, s1) \<Rightarrow>
          (case listImages w s1 of
             (Inl e, s2) \<Rightarrow> (Inl e, s2)
           | (Inr localImages, s2) \<Rightarrow>
               (let localDigest = findLocalDigest localImages imageName localImageId;
                    hasUpdate0 = (remoteDigest \<noteq> [] \<and> truthy localDigest
                                  \<and> Some remoteDigest \<noteq> localDigest);
                    (hasUpdate1, latestDigest, s3) =
                      (if \<not> hasUpdate0 \<and> isPinned \<and> registry r = ''registry-1.docker.io''
                       then (case getRemoteDigest w (repository r @ '':latest'') s2 of
                               (Inr latest, s') \<Rightarrow>
                                 (if latest \<noteq> [] \<and> remoteDigest \<noteq> [] \<and> latest \<noteq> remoteDigest
                                  then (True, Some latest, s')
                                  else (hasUpdate0, Some latest, s'))
                             | (Inl latestError, s') \<Rightarrow> (hasUpdate0, None, s'))
                       else (hasUpdate0, None, s2));
                    (t, s4) = now w s3;
                    result = FullResult hasUpdate1 t remoteDigest localDigest localImageId
                               latestDigest isPinned
                in (Inr result, s4\<lparr>updateCache := (updateCache s4)(imageName \<mapsto> result)\<rparr>))))"

text \<open>Lines 278 to 372: what \<^verbatim>\<open>checkImageUpdate\<close> does once the cache has not answered,
  the \<^verbatim>\<open>try\<close> block and its \<^verbatim>\<open>catch\<close>.\<close>

definition checkImageUpdate_fresh ::
  "world \<Rightarrow> string \<Rightarrow> string \<Rightarrow> server_state \<Rightarrow> check_result \<times> server_state" where
  "checkImageUpdate_fresh w imageName localImageId s =
     (let r = parseImageName imageName;
          isPinned = isPinnedVersionTag (tag r)
      in case checkImageUpdate_try w imageName localImageId r isPinned s of
           (Inr result, s1) \<Rightarrow> (result, s1)
         | (Inl e, s1) \<Rightarrow>
             (let (t, s2) = now w s1;
                  result = ErrorResult t localImageId (error_message e)
              in (result, s2\<lparr>updateCache := (updateCache s2)(imageName \<mapsto> result)\<rparr>)))"

text \<open>\<^verbatim>\<open>checkImageUpdate\<close>, lines 262 to 373. The clock is read only when the cache
  holds an entry; \<^verbatim>\<open>Date.now() - cached.checkedAt\<close> is not a number, and the comparison
  false, when the entry has no \<^verbatim>\<open>checkedAt\<close>.\<close>

definition checkImageUpdate ::
  "world \<Rightarrow> string \<Rightarrow> string \<Rightarrow> server_state \<Rightarrow> check_result \<times> server_state" where
  "checkImageUpdate w imageName localImageId s =
     (if imageName = [] \<or> startsWith imageName ''sha256:'' then (NoTagResult, s)
      else
        (case updateCache s imageName of
           None \<Rightarrow> checkImageUpdate_fresh w imageName localImageId s
         | Some cached \<Rightarrow>
             (let (t, s1) = now w s
              in if (case checkedAt_of cached of None \<Rightarrow> False | Some c \<Rightarrow> t - c < CACHE_TTL)
                    \<and> localImageId_of cached = Some localImageId
                 then (cached, s1)
                 else checkImageUpdate_fresh w imageName localImageId s1)))"

section \<open>Own container ID\<close>

definition isLowerHex :: "char \<Rightarrow> bool" where
  "isLowerHex c = (c \<in> set ''abcdef0123456789'')"

text \<open>\<^verbatim>\<open>cgroup.match(/docker[/-]([a-f0-9]{64})/)\<close>: the 64 characters of the leftmost
  match, if there is one.\<close>

fun match_docker_id :: "string \<Rightarrow> string option" where
  "match_docker_id [] = None"
| "match_docker_id (c # cs) =
     (let s = c # cs; sep = take 1 (drop 6 s); cand = take 64 (drop 7 s)
      in if startsWith s ''docker'' \<and> (sep = ''/'' \<or> sep = ''-'')
            \<and> length cand = 64 \<and> list_all isLowerHex cand
         then Some cand
         else match_docker_id cs)"

text \<open>\<^verbatim>\<open>getOwnContainerId\<close>, lines 698 to 729. Reading the cgroup file may throw; the
  \<^verbatim>\<open>catch\<close> then returns \<^verbatim>\<open>null\<close>, as it does when listing the containers fails.\<close>

definition getOwnContainerId :: "world \<Rightarrow> server_state \<Rightarrow> string option \<times> server_state" where
  "getOwnContainerId w s =
     (if truthy (ownContainerId s) then (ownContainerId s, s)
      else
        (case cgroupFile w of
           Inl e \<Rightarrow> (None, s)
         | Inr cgroup \<Rightarrow>
             (case match_docker_id cgroup of
                Some m \<Rightarrow> (Some m, s\<lparr>ownContainerId := Some m\<rparr>)
              | None \<Rightarrow>
                  if hostname w \<noteq> [] \<and> length (hostname w) = 12 \<and> list_all isLowerHex (hostname w)
                  then (case listContainers w True s of
                          (Inl e, s1) \<Rightarrow> (None, s1)
                        | (Inr containers, s1) \<Rightarrow>
                            (case find (\<lambda>c. startsWith (container_Id c) (hostname w)) containers of
                               Some c \<Rightarrow> (Some (container_Id c),
                                           s1\<lparr>ownContainerId := Some (container_Id c)\<rparr>)
                             | None \<Rightarrow> (None, s1)))
                  else (None, s))))"

section \<open>Container recreator\<close>

text \<open>The image name of lines 747 and 964 to 966 for a registry, a repository and a new
  tag.\<close>

definition formatImageName :: "image_ref \<Rightarrow> string \<Rightarrow> string" where
  "formatImageName r newTag =
     (if registry r = ''registry-1.docker.io'' then repository r @ '':'' @ newTag
      else registry r @ ''/'' @ repository r @ '':'' @ newTag)"

text \<open>The new tag and the target image name of lines 745 to 748, from the image name
  of the container and the \<^verbatim>\<open>targetTag\<close> of the request.\<close>

definition newTag_of :: "string \<Rightarrow> string option \<Rightarrow> string" where
  "newTag_of originalImageName targetTag =
     (case targetTag of
        Some t \<Rightarrow> if t \<noteq> [] then t else tag (parseImageName originalImageName)
      | None \<Rightarrow> tag (parseImageName originalImageName))"

definition targetImageName_of :: "string \<Rightarrow> string option \<Rightarrow> string" where
  "targetImageName_of originalImageName targetTag =
     (if truthy targetTag
      then formatImageName (parseImageName originalImageName)
             (newTag_of originalImageName targetTag)
      else originalImageName)"

text \<open>The object of lines 784 to 819 (and 995 to 1027): the properties in the order of
  the literal, without those whose value is \<^verbatim>\<open>null\<close> or \<^verbatim>\<open>undefined\<close>.\<close>

definition containerConfig_of :: "container_info \<Rightarrow> string \<Rightarrow> string \<Rightarrow> (string \<times> json) list" where
  "containerConfig_of info targetImageName name =
     filter (\<lambda>(k, v). v \<noteq> JNull \<and> v \<noteq> JUndefined)
       [(''Image'', JStr targetImageName),
        (''name'', JStr name),
        (''Hostname'', get_prop (Config info) ''Hostname''),
        (''Domainname'', get_prop (Config info) ''Domainname''),
        (''User'', get_prop (Config info) ''User''),
        (''AttachStdin'', get_prop (Config info) ''AttachStdin''),
        (''AttachStdout'', get_prop (Config info) ''AttachStdout''),
        (''AttachStderr'', get_prop (Config info) ''AttachStderr''),
        (''Tty'', get_prop (Config info) ''Tty''),
        (''OpenStdin'', get_prop (Config info) ''OpenStdin''),
        (''StdinOnce'', get_prop (Config info) ''StdinOnce''),
        (''Env'', get_prop (Config info) ''Env''),
        (''Cmd'', get_prop (Config info) ''Cmd''),
        (''Entrypoint'', get_prop (Config info) ''Entrypoint''),
        (''Labels'', get_prop (Config info) ''Labels''),
        (''WorkingDir'', get_prop (Config info) ''WorkingDir''),
        (''ExposedPorts'', get_prop (Config info) ''ExposedPorts''),
        (''StopSignal'', get_prop (Config info) ''StopSignal''),
        (''StopTimeout'', get_prop (Config info) ''StopTimeout''),
        (''Healthcheck'', get_prop (Config info) ''Healthcheck''),
        (''HostConfig'', HostConfig info),
        (''NetworkingConfig'', JObj [(''EndpointsConfig'', Networks info)])]"

text \<open>\<^verbatim>\<open>updateLogs.find(p)\<close> followed by assignments to the entry found: the first entry
  that satisfies \<open>p\<close> is changed in place, and nothing when there is none.\<close>

fun update_first :: "(log_entry \<Rightarrow> bool) \<Rightarrow> (log_entry \<Rightarrow> log_entry) \<Rightarrow> log_entry list \<Rightarrow> log_entry list" where
  "update_first p f [] = []"
| "update_first p f (l # ls) = (if p l then f l # ls else l # update_first p f ls)"

text \<open>Assignments to the object \<^verbatim>\<open>logEntry\<close>. Within one request that runs without
  another request in between, that object is the entry \<^verbatim>\<open>unshift\<close> has put at the front
  of \<^verbatim>\<open>updateLogs\<close>.\<close>

definition update_logEntry :: "(log_entry \<Rightarrow> log_entry) \<Rightarrow> server_state \<Rightarrow> server_state" where
  "update_logEntry f s =
     s\<lparr>updateLogs := (case updateLogs s of [] \<Rightarrow> [] | l # ls \<Rightarrow> f l # ls)\<rparr>"

definition cache_delete :: "string \<Rightarrow> server_state \<Rightarrow> server_state" where
  "cache_delete imageName s = s\<lparr>updateCache := (updateCache s)(imageName := None)\<rparr>"

text \<open>The JSON body and the status of a response of the update endpoint; \<open>None\<close> where
  the body has no such property.\<close>

record update_response =
  resp_status :: nat
  resp_success :: "bool option"
  resp_message :: "string option"
  resp_selfUpdate :: "bool option"
  resp_manualRestartRequired :: "bool option"
  resp_imageChanged :: "bool option"
  resp_tagChanged :: "bool option"
  resp_log :: "log_entry option"
  resp_error :: "string option"
  resp_details :: "string option"

text \<open>The \<^verbatim>\<open>catch\<close> block of the update endpoint, lines 894 to 905.\<close>

definition update_failed :: "js_error \<Rightarrow> server_state \<Rightarrow> update_response \<times> server_state" where
  "update_failed e s =
     (\<lparr>resp_status = 500, resp_success = None, resp_message = None, resp_selfUpdate = None,
       resp_manualRestartRequired = None, resp_imageChanged = None, resp_tagChanged = None,
       resp_log = None, resp_error = Some ''Failed to update container'',
       resp_details = Some (error_message e)\<rparr>,
      s\<lparr>updateLogs :=
          update_first (\<lambda>l. log_id l = String_num (logIdCounter s - 1))
            (\<lambda>l. l\<lparr>status := ''failed'',
                    log_message := ''Failed to update: '' @ error_message e\<rparr>)
            (updateLogs s)\<rparr>)"

text \<open>The update endpoint, lines 732 to 906. \<open>targetTag\<close> is \<^verbatim>\<open>req.body?.targetTag\<close>,
  \<open>None\<close> when the request has none.\<close>

definition update_container ::
  "world \<Rightarrow> string \<Rightarrow> string option \<Rightarrow> server_state \<Rightarrow> update_response \<times> server_state" where
  "update_container w containerId targetTag s =
     (case inspect w containerId s of
        (Inl e, s1) \<Rightarrow> update_failed e s1
      | (Inr info, s1) \<Rightarrow>
          (let originalImageName = Config_Image info;
               name = strip_slash (Name info);
               oldId = Image info;
               r = parseImageName originalImageName;
               currentTag = tag r;
               newTag = newTag_of originalImageName targetTag;
               targetImageName = targetImageName_of originalImageName targetTag;
               (ownId, s2) = getOwnContainerId w s1;
               selfUpdate = isSelfUpdate ownId containerId;
               (ts, s3) = isoNow w s2;
               logEntry =
                 \<lparr>log_id = String_num (logIdCounter s3), timestamp = ts, containerName = name,
                  oldImage = currentTag, oldImageId = substring oldId 0 12, newImage = newTag,
                  newImageId = [], status = ''in-progress'',
                  log_message = (if selfUpdate then ''Updating '' @ name @ '' (self-update)...''
                                 else ''Updating '' @ name @ '' to '' @ newTag @ ''...'')\<rparr>;
               s4 = s3\<lparr>logIdCounter := logIdCounter s3 + 1,
                       updateLogs := logEntry # updateLogs s3\<rparr>
           in case pull w targetImageName s4 of
                (Inl e, s5) \<Rightarrow> update_failed e s5
              | (Inr u, s5) \<Rightarrow>
                  (let containerConfig = containerConfig_of info targetImageName name
                   in if selfUpdate
                      then
                        (let s6 = cache_delete originalImageName (cache_delete targetImageName s5);
                             done = (\<lambda>l. l\<lparr>status := ''success'', newImage := newTag,
                                      log_message := ''Image pulled for '' @ name
                                        @ ''. Please restart the container manually using: ''
                                        @ ''docker compose up -d --force-recreate dockermaid''\<rparr>);
                             s7 = update_logEntry done s6
                         in (\<lparr>resp_status = 200, resp_success = Some True,
                              resp_message = Some (''Image pulled for '' @ name
                                @ ''. To complete the self-update, please run: ''
                                @ ''docker compose up -d --force-recreate''),
                              resp_selfUpdate = Some True, resp_manualRestartRequired = Some True,
                              resp_imageChanged = None, resp_tagChanged = None,
                              resp_log = Some (done logEntry), resp_error = None,
                              resp_details = None\<rparr>, s7))
                      else
                        (case stop w containerId s5 of
                           (stopped, s6) \<Rightarrow>
                             (case remove_container w containerId s6 of
                                (Inl e, s7) \<Rightarrow> update_failed e s7
                              | (Inr u, s7) \<Rightarrow>
                                  (case createContainer w containerConfig s7 of
                                     (Inl e, s8) \<Rightarrow> update_failed e s8
                                   | (Inr newContainer, s8) \<Rightarrow>
                                       (case start w newContainer s8 of
                                          (Inl e, s9) \<Rightarrow> update_failed e s9
                                        | (Inr u, s9) \<Rightarrow>
                                            (case inspect w newContainer s9 of
                                               (Inl e, s10) \<Rightarrow> update_failed e s10
                                             | (Inr newInfo, s10) \<Rightarrow>
  (let s11 = cache_delete originalImageName (cache_delete targetImageName s10);
       newId = Image newInfo;
       imageChanged = (oldId \<noteq> newId);
       tagChanged = (currentTag \<noteq> newTag);
       done = (\<lambda>l. l\<lparr>status := ''success'', newImage := newTag,
                newImageId := substring newId 0 12,
                log_message :=
                  (if tagChanged then ''Updated '' @ name @ '': '' @ currentTag @ '' -> '' @ newTag
                   else if imageChanged then ''Updated '' @ name @ '' to latest '' @ newTag
                   else ''Recreated '' @ name @ '' (no changes)'')\<rparr>);
       s12 = update_logEntry done s11
   in (\<lparr>resp_status = 200, resp_success = Some True,
        resp_message = Some (''Container '' @ name @ '' updated successfully''),
        resp_selfUpdate = None, resp_manualRestartRequired = None,
        resp_imageChanged = Some imageChanged, resp_tagChanged = Some tagChanged,
        resp_log = Some (done logEntry), resp_error = None, resp_details = None\<rparr>,
       s12))))))))))"

section \<open>Update all\<close>

text \<open>An element of \<^verbatim>\<open>results\<close>; \<open>None\<close> where the object has no such property.\<close>

record batch_item =
  item_containerId :: string
  item_containerName :: string
  item_status :: string
  item_message :: "string option"
  item_selfUpdate :: "bool option"
  item_oldTag :: "string option"
  item_newTag :: "string option"
  item_error :: "string option"

text \<open>The three variables of lines 912 to 914; \<open>None\<close> is \<^verbatim>\<open>null\<close>.\<close>

record batch_result =
  results :: "batch_item list"
  selfUpdateSkipped :: bool
  selfUpdateContainerName :: "string option"

text \<open>The response: line 1062 (the results, the two self-update values and the
  message) or line 1072 (status 500 with the error's message).\<close>

datatype batch_response =
    BatchOk batch_result string
  | BatchError string

definition skipped_item :: "string \<Rightarrow> string \<Rightarrow> string \<Rightarrow> bool option \<Rightarrow> batch_item" where
  "skipped_item containerId name msg self =
     \<lparr>item_containerId = containerId, item_containerName = name, item_status = ''skipped'',
      item_message = Some msg, item_selfUpdate = self, item_oldTag = None, item_newTag = None,
      item_error = None\<rparr>"

definition push :: "batch_item \<Rightarrow> batch_result \<Rightarrow> batch_result" where
  "push item acc = acc\<lparr>results := results acc @ [item]\<rparr>"

text \<open>The \<^verbatim>\<open>catch\<close> block of one iteration, lines 1052 to 1059.\<close>

definition batch_failed ::
  "js_error \<Rightarrow> string \<Rightarrow> string \<Rightarrow> batch_result \<Rightarrow> server_state \<Rightarrow> batch_result \<times> server_state" where
  "batch_failed e containerId name acc s =
     (push \<lparr>item_containerId = containerId, item_containerName = name, item_status = ''failed'',
            item_message = None, item_selfUpdate = None, item_oldTag = None, item_newTag = None,
            item_error = Some (error_message e)\<rparr> acc,
      s\<lparr>updateLogs :=
          update_first (\<lambda>l. containerName l = name \<and> status l = ''in-progress'')
            (\<lambda>l. l\<lparr>status := ''failed'', log_message := ''Failed: '' @ error_message e\<rparr>)
            (updateLogs s)\<rparr>)"

text \<open>One iteration of the loop of lines 919 to 1060, for the container
  \<open>containerInfo\<close>.\<close>

definition update_all_step ::
  "world \<Rightarrow> string option \<Rightarrow> container_summary \<Rightarrow> batch_result \<times> server_state
     \<Rightarrow> batch_result \<times> server_state" where
  "update_all_step w ownId containerInfo st =
     (let acc = fst st; s = snd st;
          containerId = container_Id containerInfo;
          name = (case Names containerInfo of
                    [] \<Rightarrow> ''unknown''
                  | n # ns \<Rightarrow> if strip_slash n \<noteq> [] then strip_slash n else ''unknown'')
      in case inspect w containerId s of
           (Inl e, s1) \<Rightarrow> batch_failed e containerId name acc s1
         | (Inr info, s1) \<Rightarrow>
             (let originalImageName = Config_Image info;
                  localImageId = Image info
              in if startsWith originalImageName ''sha256:''
                 then (push (skipped_item containerId name ''No image tag'' None) acc, s1)
                 else
                   (case checkImageUpdate w originalImageName localImageId s1 of
                      (updateCheck, s2) \<Rightarrow>
                        if \<not> hasUpdate_of updateCheck
                        then (push (skipped_item containerId name ''No update available'' None) acc,
                              s2)
                        else if isSelfUpdate ownId containerId
                        then (push (skipped_item containerId name
                                      (''Self-update skipped. Please update DockerMaid manually ''
                                       @ ''using: docker compose up -d --force-recreate'')
                                      (Some True))
                                (acc\<lparr>selfUpdateSkipped := True,
                                      selfUpdateContainerName := Some name\<rparr>),
                              s2)
                        else
  (let r = parseImageName originalImageName;
       currentTag = tag r;
       isPinned = isPinnedVersionTag currentTag;
       newTag = (if isPinned then ''latest'' else currentTag);
       targetImageName = formatImageName r newTag;
       (ts, s3) = isoNow w s2;
       logEntry =
         \<lparr>log_id = String_num (logIdCounter s3), timestamp = ts, containerName = name,
          oldImage = currentTag, oldImageId = substring localImageId 7 19, newImage = newTag,
          newImageId = [], status = ''in-progress'',
          log_message = ''Updating '' @ name @ '' from '' @ currentTag @ '' to '' @ newTag
                          @ ''...''\<rparr>;
       s4 = s3\<lparr>logIdCounter := logIdCounter s3 + 1, updateLogs := logEntry # updateLogs s3\<rparr>
   in case pull w targetImageName s4 of
        (Inl e, s5) \<Rightarrow> batch_failed e containerId name acc s5
      | (Inr u, s5) \<Rightarrow>
          (let containerConfig = containerConfig_of info targetImageName name
           in case stop w containerId s5 of
                (stopped, s6) \<Rightarrow>
                  (case remove_container w containerId s6 of
                     (Inl e, s7) \<Rightarrow> batch_failed e containerId name acc s7
                   | (Inr u, s7) \<Rightarrow>
                       (case createContainer w containerConfig s7 of
                          (Inl e, s8) \<Rightarrow> batch_failed e containerId name acc s8
                        | (Inr newContainer, s8) \<Rightarrow>
                            (case start w newContainer s8 of
                               (Inl e, s9) \<Rightarrow> batch_failed e containerId name acc s9
                             | (Inr u, s9) \<Rightarrow>
                                 (case inspect w newContainer s9 of
                                    (Inl e, s10) \<Rightarrow> batch_failed e containerId name acc s10
                                  | (Inr newInfo, s10) \<Rightarrow>
  (let newId = Image newInfo;
       s11 = update_logEntry
               (\<lambda>l. l\<lparr>status := ''success'', newImage := newTag,
                       newImageId := substring newId 7 19,
                       log_message := ''Updated '' @ name @ '': '' @ currentTag @ '' -> ''
                                        @ newTag\<rparr>) s10;
       s12 = cache_delete targetImageName (cache_delete originalImageName s11)
   in (push \<lparr>item_containerId = containerId, item_containerName = name,
              item_status = ''success'', item_message = None, item_selfUpdate = None,
              item_oldTag = Some currentTag, item_newTag = Some newTag,
              item_error = None\<rparr> acc,
       s12)))))))))))"

fun update_all_loop ::
  "world \<Rightarrow> string option \<Rightarrow> container_summary list \<Rightarrow> batch_result \<times> server_state
     \<Rightarrow> batch_result \<times> server_state" where
  "update_all_loop w ownId [] st = st"
| "update_all_loop w ownId (containerInfo # containers) st =
     update_all_loop w ownId containers (update_all_step w ownId containerInfo st)"

text \<open>The endpoint, lines 909 to 1074.\<close>

definition update_all :: "world \<Rightarrow> server_state \<Rightarrow> batch_response \<times> server_state" where
  "update_all w s =
     (case listContainers w False s of
        (Inl e, s1) \<Rightarrow> (BatchError (error_message e), s1)
      | (Inr containers, s1) \<Rightarrow>
          (let (ownId, s2) = getOwnContainerId w s1;
               (acc, s3) =
                 update_all_loop w ownId containers
                   (\<lparr>results = [], selfUpdateSkipped = False, selfUpdateContainerName = None\<rparr>,
                    s2)
           in (BatchOk acc
                 (if selfUpdateSkipped acc
                  then ''Updates applied. DockerMaid (''
                       @ (case selfUpdateContainerName acc of None \<Rightarrow> ''null'' | Some n \<Rightarrow> n)
                       @ '') was skipped to prevent crash. Update it manually.''
                  else ''All updates applied successfully.''),
               s3)))"

text \<open>\<^verbatim>\<open>DELETE /api/logs\<close> (lines 1143 to 1146) and \<^verbatim>\<open>POST /api/cache/clear\<close> (lines 1131
  to 1134).\<close>

definition clear_logs :: "server_state \<Rightarrow> server_state" where
  "clear_logs s = s\<lparr>updateLogs := []\<rparr>"

definition clear_cache :: "server_state \<Rightarrow> server_state" where
  "clear_cache s = s\<lparr>updateCache := Map.empty\<rparr>"

section \<open>Notions used to state the properties\<close>

text \<open>A request to a registry: for a pull token, or for a manifest.\<close>

fun is_registry_request :: "event \<Rightarrow> bool" where
  "is_registry_request (EvTokenRequest repo) = True"
| "is_registry_request (EvManifestRequest reg repo tg auth) = True"
| "is_registry_request e = False"

text \<open>The four daemon calls that replace a container.\<close>

fun is_recreation :: "event \<Rightarrow> bool" where
  "is_recreation (EvStop containerId) = True"
| "is_recreation (EvRemove containerId) = True"
| "is_recreation (EvCreate containerConfig) = True"
| "is_recreation (EvStart containerId) = True"
| "is_recreation e = False"

text \<open>The states the server can be in: the state at start-up, and the state after any
  of the requests that change \<^verbatim>\<open>updateCache\<close>, \<^verbatim>\<open>updateLogs\<close> or \<^verbatim>\<open>logIdCounter\<close>, each
  run to its end in any world.\<close>

inductive reachable :: "server_state \<Rightarrow> bool" where
  reachable_initial: "reachable initial_state"
| reachable_check: "reachable s \<Longrightarrow> reachable (snd (checkImageUpdate w imageName localImageId s))"
| reachable_update: "reachable s \<Longrightarrow> reachable (snd (update_container w containerId targetTag s))"
| reachable_update_all: "reachable s \<Longrightarrow> reachable (snd (update_all w s))"
| reachable_clear_logs: "reachable s \<Longrightarrow> reachable (clear_logs s)"
| reachable_clear_cache: "reachable s \<Longrightarrow> reachable (clear_cache s)"

text \<open>The requests of a detection pass: the clock, the registry, the list of local
  images.\<close>

fun is_detection :: "event \<Rightarrow> bool" where
  "is_detection EvClock = True"
| "is_detection (EvTokenRequest repo) = True"
| "is_detection (EvManifestRequest reg repo tg auth) = True"
| "is_detection EvListImages = True"
| "is_detection e = False"

text \<open>The newest entry of \<^verbatim>\<open>updateLogs\<close>, when there is one, carries the last ID given
  out.\<close>

definition newest_has_last_id :: "server_state \<Rightarrow> bool" where
  "newest_has_last_id s \<longleftrightarrow>
     (case updateLogs s of
        [] \<Rightarrow> True
      | l # ls \<Rightarrow> log_id l = String_num (logIdCounter s - 1))"

section \<open>Example environments\<close>

text \<open>A world in which nothing answers: the token endpoint and the daemon fail, the
  registry times out, and the server does not run in a container. The clock advances by
  one second with every recorded request.\<close>

definition offline_world :: world where
  "offline_world =
     \<lparr>dateNow = (\<lambda>tr. 1000 * int (length tr)),
      toISOString = (\<lambda>tr. ''2026-01-01T00:00:00.000Z''),
      tokenResponse = (\<lambda>tr repo. Inl (JsError ''getaddrinfo ENOTFOUND auth.docker.io'')),
      manifestResponse = (\<lambda>tr reg repo tg auth. RequestTimeout),
      listImagesResponse = (\<lambda>tr. Inl (JsError ''connect ENOENT /var/run/docker.sock'')),
      listContainersResponse = (\<lambda>tr all. Inl (JsError ''connect ENOENT /var/run/docker.sock'')),
      inspectResponse = (\<lambda>tr containerId. Inl (JsError ''no such container'')),
      pullResponse = (\<lambda>tr imageName. Inl (JsError ''pull access denied'')),
      stopResponse = (\<lambda>tr containerId. Inl (JsError ''no such container'')),
      removeResponse = (\<lambda>tr containerId. Inl (JsError ''no such container'')),
      createResponse = (\<lambda>tr containerConfig. Inl (JsError ''no such image'')),
      startResponse = (\<lambda>tr containerId. Inl (JsError ''no such container'')),
      cgroupFile = Inl (JsError ''ENOENT: no such file or directory''),
      hostname = ''workstation''\<rparr>"

text \<open>A world with a registry that answers every manifest request, with one digest for
  the tag \<open>latest\<close> and another for every other tag, and a daemon that holds one local
  image, whose digest is the one of the other tags.\<close>

definition registry_world :: world where
  "registry_world =
     offline_world
       \<lparr>tokenResponse := (\<lambda>tr repo. Inr (Some ''t0'')),
        manifestResponse := (\<lambda>tr reg repo tg auth.
           Response 200 (Some (if tg = ''latest'' then ''sha256:bb'' else ''sha256:aa''))),
        listImagesResponse := (\<lambda>tr.
           Inr [\<lparr>image_Id = ''sha256:11'', RepoTags = Some [''nginx:1.25''],
                 RepoDigests = Some [''nginx@sha256:aa'']\<rparr>])\<rparr>"

text \<open>A world with one running container, \<open>c0ffee\<close>, which is the one the server runs
  in: the daemon lists and inspects it, and every other request to the daemon succeeds.\<close>

definition self_world :: world where
  "self_world =
     registry_world
       \<lparr>listContainersResponse := (\<lambda>tr all.
           Inr [\<lparr>container_Id = ''c0ffee'', Names = [''/dockermaid'']\<rparr>]),
        inspectResponse := (\<lambda>tr containerId.
           Inr \<lparr>Name = ''/dockermaid'', Image = ''sha256:11'', Config_Image = ''nginx:latest'',
                Config = [], HostConfig = JNull, Networks = JNull\<rparr>),
        pullResponse := (\<lambda>tr imageName. Inr ()),
        stopResponse := (\<lambda>tr containerId. Inr ()),
        removeResponse := (\<lambda>tr containerId. Inr ()),
        createResponse := (\<lambda>tr containerConfig. Inr ''n3w''),
        startResponse := (\<lambda>tr containerId. Inr ())\<rparr>"

text \<open>The state of a server that has found its own container ID to be \<open>c0ffee\<close>.\<close>

definition self_state :: server_state where
  "self_state = initial_state\<lparr>ownContainerId := Some ''c0ffee''\<rparr>"

text \<open>The same world with a registry that refuses the pull.\<close>

definition pull_refused_world :: world where
  "pull_refused_world = self_world\<lparr>pullResponse := (\<lambda>tr imageName. Inl (JsError ''pull access denied''))\<rparr>"

text \<open>A state whose cache holds an entry for \<open>nginx:latest\<close>.\<close>

definition cached_state :: server_state where
  "cached_state =
     initial_state\<lparr>updateCache := [''nginx:latest'' \<mapsto> ErrorResult 0 ''sha256:11'' ''Request timeout'']\<rparr>"

text \<open>The same world with a registry whose digest for every tag is the local one: no
  update is available.\<close>

definition up_to_date_world :: world where
  "up_to_date_world =
     self_world\<lparr>manifestResponse := (\<lambda>tr reg repo tg auth. Response 200 (Some ''sha256:aa''))\<rparr>"

section \<open>Properties of the string functions\<close>

lemmas js_defs = startsWith_def endsWith_def indexOf_def lastIndexOf_def includes_str_def
  substring_from_def substring_def

lemma startsWith_single: "startsWith s [c] \<longleftrightarrow> (\<exists>t. s = c # t)"
  by (cases s) (auto simp: startsWith_def)

lemma indexOf_from_absent: "c \<notin> set s \<Longrightarrow> indexOf_from s [c] i = - 1"
  by (induction s arbitrary: i) (auto simp: startsWith_single)

lemma indexOf_from_first:
  "c \<notin> set r \<Longrightarrow> indexOf_from (r @ c # t) [c] i = int (i + length r)"
  by (induction r arbitrary: i) (auto simp: startsWith_single)

lemma indexOf_char_absent: "c \<notin> set s \<Longrightarrow> indexOf s [c] = - 1"
  by (simp add: indexOf_def indexOf_from_absent)

lemma indexOf_char_first: "c \<notin> set r \<Longrightarrow> indexOf (r @ c # t) [c] = int (length r)"
  by (simp add: indexOf_def indexOf_from_first)

lemma includes_char: "includes_str s [c] \<longleftrightarrow> c \<in> set s"
proof (cases "c \<in> set s")
  case True
  then obtain r t where "s = r @ c # t" "c \<notin> set r"
    by (meson split_list_first)
  then show ?thesis
    using True by (simp add: includes_str_def indexOf_char_first)
next
  case False
  then show ?thesis
    by (simp add: includes_str_def indexOf_char_absent)
qed

lemma lastIndexOf_from_absent: "c \<notin> set s \<Longrightarrow> lastIndexOf_from s [c] i = - 1"
  by (induction s arbitrary: i) (auto simp: startsWith_single Let_def)

lemma lastIndexOf_from_last:
  "c \<notin> set t \<Longrightarrow> lastIndexOf_from (r @ c # t) [c] i = int (i + length r)"
  by (induction r arbitrary: i) (auto simp: startsWith_single Let_def lastIndexOf_from_absent)

lemma lastIndexOf_char_absent: "c \<notin> set s \<Longrightarrow> lastIndexOf s [c] = - 1"
  by (simp add: lastIndexOf_def lastIndexOf_from_absent)

lemma lastIndexOf_char_last: "c \<notin> set t \<Longrightarrow> lastIndexOf (r @ c # t) [c] = int (length r)"
  by (simp add: lastIndexOf_def lastIndexOf_from_last)

lemma substring_prefix: "substring (r @ t) 0 (int (length r)) = r"
  by (simp add: substring_def Let_def)

lemma substring_from_suffix: "substring_from (r @ t) (int (length r)) = t"
  by (simp add: substring_from_def)

lemma substring_from_suffix1: "substring_from (r @ c # t) (int (length r) + 1) = t"
  by (simp add: substring_from_def nat_add_distrib)

lemma tag_guard_iff:
  "(0 < lastIndexOf s '':'' \<and> \<not> includes_str (substring_from s (lastIndexOf s '':'')) ''/'')
     \<longleftrightarrow> (\<exists>p t. s = p @ '':'' @ t \<and> p \<noteq> [] \<and> CHR '':'' \<notin> set t \<and> CHR ''/'' \<notin> set t)"
  (is "?G \<longleftrightarrow> ?A")
proof
  assume ?A
  then obtain p t where s: "s = p @ CHR '':'' # t" and p: "p \<noteq> []"
    and t: "CHR '':'' \<notin> set t" "CHR ''/'' \<notin> set t" by auto
  have idx: "lastIndexOf s '':'' = int (length p)"
    using t by (simp add: s lastIndexOf_char_last)
  have "substring_from s (int (length p)) = CHR '':'' # t"
    unfolding s by (rule substring_from_suffix)
  then show ?G using p t by (simp add: idx includes_char)
next
  assume g: ?G
  have "CHR '':'' \<in> set s"
  proof (rule ccontr)
    assume "CHR '':'' \<notin> set s"
    then have "lastIndexOf s '':'' = - 1" by (rule lastIndexOf_char_absent)
    with g show False by simp
  qed
  then obtain p t where s: "s = p @ CHR '':'' # t" and t: "CHR '':'' \<notin> set t"
    by (meson split_list_last)
  have idx: "lastIndexOf s '':'' = int (length p)"
    using t by (simp add: s lastIndexOf_char_last)
  have sub: "substring_from s (int (length p)) = CHR '':'' # t"
    unfolding s by (rule substring_from_suffix)
  from g have "p \<noteq> []" "CHR ''/'' \<notin> set t"
    by (simp_all add: idx sub includes_char)
  with s t show ?A by auto
qed

lemma tag_parts:
  assumes "s = p @ '':'' @ t" "CHR '':'' \<notin> set t"
  shows "substring_from s (lastIndexOf s '':'' + 1) = t"
    and "substring s 0 (lastIndexOf s '':'') = p"
proof -
  have idx: "lastIndexOf s '':'' = int (length p)"
    using assms by (simp add: lastIndexOf_char_last)
  show "substring_from s (lastIndexOf s '':'' + 1) = t"
    unfolding idx using assms(1) by (simp add: substring_from_suffix1)
  show "substring s 0 (lastIndexOf s '':'') = p"
    unfolding idx using assms(1) by (simp add: substring_prefix)
qed

lemma registry_guard_iff:
  "(0 < indexOf s ''/'' \<and>
      (includes_str (substring s 0 (indexOf s ''/'')) ''.''
       \<or> includes_str (substring s 0 (indexOf s ''/'')) '':''))
     \<longleftrightarrow> (\<exists>h q. s = h @ ''/'' @ q \<and> h \<noteq> [] \<and> CHR ''/'' \<notin> set h
            \<and> (CHR ''.'' \<in> set h \<or> CHR '':'' \<in> set h))"
  (is "?G \<longleftrightarrow> ?B")
proof
  assume ?B
  then obtain h q where s: "s = h @ CHR ''/'' # q" and h: "h \<noteq> []" "CHR ''/'' \<notin> set h"
    and d: "CHR ''.'' \<in> set h \<or> CHR '':'' \<in> set h" by auto
  have idx: "indexOf s ''/'' = int (length h)"
    using h by (simp add: s indexOf_char_first)
  have "substring s 0 (int (length h)) = h"
    unfolding s by (rule substring_prefix)
  then show ?G using h d by (simp add: idx includes_char)
next
  assume g: ?G
  have "CHR ''/'' \<in> set s"
  proof (rule ccontr)
    assume "CHR ''/'' \<notin> set s"
    then have "indexOf s ''/'' = - 1" by (rule indexOf_char_absent)
    with g show False by simp
  qed
  then obtain h q where s: "s = h @ CHR ''/'' # q" and h: "CHR ''/'' \<notin> set h"
    by (meson split_list_first)
  have idx: "indexOf s ''/'' = int (length h)"
    using h by (simp add: s indexOf_char_first)
  have sub: "substring s 0 (int (length h)) = h"
    unfolding s by (rule substring_prefix)
  from g have "h \<noteq> []" "CHR ''.'' \<in> set h \<or> CHR '':'' \<in> set h"
    by (simp_all add: idx sub includes_char)
  with s h show ?B by auto
qed

lemma registry_parts:
  assumes "s = h @ ''/'' @ q" "CHR ''/'' \<notin> set h"
  shows "substring s 0 (indexOf s ''/'') = h"
    and "substring_from s (indexOf s ''/'' + 1) = q"
proof -
  have idx: "indexOf s ''/'' = int (length h)"
    using assms by (simp add: indexOf_char_first)
  show "substring s 0 (indexOf s ''/'') = h"
    unfolding idx using assms(1) by (simp add: substring_prefix)
  show "substring_from s (indexOf s ''/'' + 1) = q"
    unfolding idx using assms(1) by (simp add: substring_from_suffix1)
qed

lemma startsWith_prefix: "startsWith s p \<longleftrightarrow> prefix p s"
proof
  assume "startsWith s p"
  then have "s = p @ drop (length p) s"
    by (metis startsWith_def append_take_drop_id)
  then show "prefix p s" by (metis prefixI)
next
  assume "prefix p s"
  then show "startsWith s p" by (auto simp: startsWith_def prefix_def)
qed

lemma substring_take: "substring s 0 (int n) = take n s"
  by (simp add: substring_def Let_def min_def)

section \<open>Image reference parser: the decomposition of an image name\<close>

lemma parseImageName_decompose:
  "\<exists>path name.
     (if \<exists>p t. imageName = p @ '':'' @ t \<and> p \<noteq> [] \<and> CHR '':'' \<notin> set t \<and> CHR ''/'' \<notin> set t
      then imageName = path @ '':'' @ tag (parseImageName imageName) \<and> path \<noteq> []
           \<and> CHR '':'' \<notin> set (tag (parseImageName imageName))
           \<and> CHR ''/'' \<notin> set (tag (parseImageName imageName))
      else path = imageName \<and> tag (parseImageName imageName) = ''latest'') \<and>
     (if \<exists>h q. path = h @ ''/'' @ q \<and> h \<noteq> [] \<and> CHR ''/'' \<notin> set h
              \<and> (CHR ''.'' \<in> set h \<or> CHR '':'' \<in> set h)
      then path = registry (parseImageName imageName) @ ''/'' @ name
           \<and> CHR ''/'' \<notin> set (registry (parseImageName imageName))
      else registry (parseImageName imageName) = ''registry-1.docker.io'' \<and> name = path) \<and>
     repository (parseImageName imageName) =
       (if registry (parseImageName imageName) = ''registry-1.docker.io'' \<and> CHR ''/'' \<notin> set name
        then ''library/'' @ name else name)"
proof -
  define A where "A \<longleftrightarrow> (\<exists>p t. imageName = p @ '':'' @ t \<and> p \<noteq> [] \<and> CHR '':'' \<notin> set t \<and> CHR ''/'' \<notin> set t)"
  define tr where "tr = (if A then (substring_from imageName (lastIndexOf imageName '':'' + 1),
        substring imageName 0 (lastIndexOf imageName '':'')) else (''latest'', imageName))"
  define path where "path = snd tr"
  define B where "B \<longleftrightarrow> (\<exists>h q. path = h @ ''/'' @ q \<and> h \<noteq> [] \<and> CHR ''/'' \<notin> set h
              \<and> (CHR ''.'' \<in> set h \<or> CHR '':'' \<in> set h))"
  define rr where "rr = (if B then (substring path 0 (indexOf path ''/''),
        substring_from path (indexOf path ''/'' + 1)) else (dockerHub, path))"
  define name where "name = snd rr"
  have guardB: "(0 < indexOf path ''/'' \<and>
      (includes_str (substring path 0 (indexOf path ''/'')) ''.''
       \<or> includes_str (substring path 0 (indexOf path ''/'')) '':'')) \<longleftrightarrow> B"
    unfolding B_def by (rule registry_guard_iff)
  have reg: "(if 0 < indexOf path ''/''
             then (if includes_str (substring path 0 (indexOf path ''/'')) ''.''
                      \<or> includes_str (substring path 0 (indexOf path ''/'')) '':''
                   then (substring path 0 (indexOf path ''/''),
                         substring_from path (indexOf path ''/'' + 1))
                   else (dockerHub, path))
             else (dockerHub, path)) = rr"
    using guardB by (auto simp: rr_def)
  have tg: "(if 0 < lastIndexOf imageName '':'' \<and> \<not> includes_str (substring_from imageName (lastIndexOf imageName '':'')) ''/''
             then (substring_from imageName (lastIndexOf imageName '':'' + 1), substring imageName 0 (lastIndexOf imageName '':''))
             else (''latest'', imageName)) = tr"
    unfolding tr_def A_def tag_guard_iff ..
  have res: "parseImageName imageName =
      \<lparr>registry = fst rr,
       repository = (if fst rr = ''registry-1.docker.io'' \<and> \<not> includes_str name ''/''
                     then ''library/'' @ name else name),
       tag = fst tr\<rparr>"
    unfolding parseImageName_def Let_def tg case_prod_beta reg[unfolded path_def]
    by (simp add: name_def)
  have c1: "if A then imageName = path @ '':'' @ fst tr \<and> path \<noteq> []
           \<and> CHR '':'' \<notin> set (fst tr) \<and> CHR ''/'' \<notin> set (fst tr)
      else path = imageName \<and> fst tr = ''latest''"
  proof (cases A)
    case True
    then obtain p t where s: "imageName = p @ '':'' @ t" and p: "p \<noteq> []"
      and t: "CHR '':'' \<notin> set t" "CHR ''/'' \<notin> set t" unfolding A_def by blast
    have "fst tr = t" "path = p"
      using True tag_parts[OF s t(1)] by (simp_all add: tr_def path_def)
    with True s p t show ?thesis by simp
  next
    case False
    then show ?thesis by (simp add: tr_def path_def)
  qed
  have c2: "if B then path = fst rr @ ''/'' @ name \<and> CHR ''/'' \<notin> set (fst rr)
      else fst rr = ''registry-1.docker.io'' \<and> name = path"
  proof (cases B)
    case True
    then obtain h q where s: "path = h @ ''/'' @ q" and h: "CHR ''/'' \<notin> set h"
      unfolding B_def by blast
    have "fst rr = h" "name = q"
      using True registry_parts[OF s h] by (simp_all add: rr_def name_def)
    with True s h show ?thesis by simp
  next
    case False
    then show ?thesis by (simp add: rr_def name_def dockerHub_def)
  qed
  have sel: "tag (parseImageName imageName) = fst tr"
    "registry (parseImageName imageName) = fst rr"
    "repository (parseImageName imageName) =
       (if fst rr = ''registry-1.docker.io'' \<and> CHR ''/'' \<notin> set name
        then ''library/'' @ name else name)"
    by (simp_all add: res includes_char)
  show ?thesis
    unfolding sel
    by (rule exI[of _ path], rule exI[of _ name])
      (rule conjI[OF c1[unfolded A_def] conjI[OF c2[unfolded B_def] refl]])
qed

text \<open>
  Claim C6, as amended. \<^verbatim>\<open>parseImageName\<close> returns a result on every string, and the
  result is the one the three rules give. (1) When the name is \<open>p:t\<close> with \<open>p\<close> not empty
  and neither a colon nor a slash in \<open>t\<close>, that is, when the last colon is not the first
  character and no slash follows it, the tag is \<open>t\<close> and the path is \<open>p\<close>; otherwise the
  tag is \<open>latest\<close> and the path is the whole name. (2) When the path is \<open>h/q\<close> with \<open>h\<close>
  a non-empty first segment that contains a dot or a colon, the registry is \<open>h\<close> and the
  name that remains is \<open>q\<close>; otherwise the registry is the Docker Hub host and the whole
  path remains. (3) What remains is prefixed with \<open>library/\<close> exactly when the registry
  is the Docker Hub host and no slash remains. The two examples of the specification
  follow.
\<close>

theorem parseImageName_amended:
  "(\<exists>path name.
     (if \<exists>p t. imageName = p @ '':'' @ t \<and> p \<noteq> [] \<and> CHR '':'' \<notin> set t \<and> CHR ''/'' \<notin> set t
      then imageName = path @ '':'' @ tag (parseImageName imageName) \<and> path \<noteq> []
           \<and> CHR '':'' \<notin> set (tag (parseImageName imageName))
           \<and> CHR ''/'' \<notin> set (tag (parseImageName imageName))
      else path = imageName \<and> tag (parseImageName imageName) = ''latest'') \<and>
     (if \<exists>h q. path = h @ ''/'' @ q \<and> h \<noteq> [] \<and> CHR ''/'' \<notin> set h
              \<and> (CHR ''.'' \<in> set h \<or> CHR '':'' \<in> set h)
      then path = registry (parseImageName imageName) @ ''/'' @ name
           \<and> CHR ''/'' \<notin> set (registry (parseImageName imageName))
      else registry (parseImageName imageName) = ''registry-1.docker.io'' \<and> name = path) \<and>
     repository (parseImageName imageName) =
       (if registry (parseImageName imageName) = ''registry-1.docker.io'' \<and> CHR ''/'' \<notin> set name
        then ''library/'' @ name else name))
   \<and> parseImageName ''nginx'' =
       \<lparr>registry = ''registry-1.docker.io'', repository = ''library/nginx'', tag = ''latest''\<rparr>
   \<and> parseImageName ''myregistry.io:5000/app:v1.2.3'' =
       \<lparr>registry = ''myregistry.io:5000'', repository = ''app'', tag = ''v1.2.3''\<rparr>"
proof -
  have "parseImageName ''nginx'' =
       \<lparr>registry = ''registry-1.docker.io'', repository = ''library/nginx'', tag = ''latest''\<rparr>"
    by (simp add: parseImageName_def js_defs dockerHub_def)
  moreover have "parseImageName ''myregistry.io:5000/app:v1.2.3'' =
       \<lparr>registry = ''myregistry.io:5000'', repository = ''app'', tag = ''v1.2.3''\<rparr>"
    by (simp add: parseImageName_def js_defs dockerHub_def)
  ultimately show ?thesis
    using parseImageName_decompose [of imageName] by blast
qed

theorem parseImageName_amended_witness:
  "(\<exists>p t. ''ghcr.io/org/app:1.0'' = p @ '':'' @ t \<and> p \<noteq> [] \<and> CHR '':'' \<notin> set t
       \<and> CHR ''/'' \<notin> set t)
   \<and> (\<exists>path. ''ghcr.io/org/app:1.0'' = path @ '':'' @ tag (parseImageName ''ghcr.io/org/app:1.0'')
         \<and> path \<noteq> [])"
proof -
  have "''ghcr.io/org/app:1.0'' = ''ghcr.io/org/app'' @ '':'' @ ''1.0'' \<and> ''ghcr.io/org/app'' \<noteq> []
      \<and> CHR '':'' \<notin> set ''1.0'' \<and> CHR ''/'' \<notin> set ''1.0''"
    by simp
  then have a: "\<exists>p t. ''ghcr.io/org/app:1.0'' = p @ '':'' @ t \<and> p \<noteq> [] \<and> CHR '':'' \<notin> set t
       \<and> CHR ''/'' \<notin> set t"
    by blast
  from parseImageName_amended [of "''ghcr.io/org/app:1.0''"] obtain path where
    "if \<exists>p t. ''ghcr.io/org/app:1.0'' = p @ '':'' @ t \<and> p \<noteq> [] \<and> CHR '':'' \<notin> set t
          \<and> CHR ''/'' \<notin> set t
     then ''ghcr.io/org/app:1.0'' = path @ '':'' @ tag (parseImageName ''ghcr.io/org/app:1.0'')
          \<and> path \<noteq> []
          \<and> CHR '':'' \<notin> set (tag (parseImageName ''ghcr.io/org/app:1.0''))
          \<and> CHR ''/'' \<notin> set (tag (parseImageName ''ghcr.io/org/app:1.0''))
     else path = ''ghcr.io/org/app:1.0'' \<and> tag (parseImageName ''ghcr.io/org/app:1.0'') = ''latest''"
    by blast
  with a have "''ghcr.io/org/app:1.0'' = path @ '':'' @ tag (parseImageName ''ghcr.io/org/app:1.0'')
      \<and> path \<noteq> []"
    by (simp only: if_True) blast
  with a show ?thesis by blast
qed

text \<open>
  The claim as it is written fails where the only colon is the first character: the
  source asks for \<^verbatim>\<open>tagIndex > 0\<close>, so \<open>:v1\<close> keeps the tag \<open>latest\<close> and the colon stays in
  the repository.
\<close>

theorem parseImageName_leading_colon_counterexample:
  "'':v1'' = [] @ '':'' @ ''v1'' \<and> CHR ''/'' \<notin> set ''v1''
   \<and> tag (parseImageName '':v1'') = ''latest''
   \<and> repository (parseImageName '':v1'') = ''library/:v1''"
  by (simp add: parseImageName_def js_defs dockerHub_def)

section \<open>Tag classifier\<close>

lemma match_v_digit_iff:
  "match_v_digit t \<longleftrightarrow> (\<exists>d r. isDigit d \<and> (t = d # r \<or> t = CHR ''v'' # d # r))"
proof (cases t)
  case Nil
  then show ?thesis by simp
next
  case (Cons c cs)
  have nv: "\<not> isDigit CHR ''v''" by (simp add: isDigit_def)
  show ?thesis
    using nv by (cases cs) (auto simp: Cons)
qed

text \<open>
  Claim C8. A tag whose lower-case form is one of the ten floating tags is not pinned.
  Any other tag is pinned exactly when it contains a digit and also a dot, or a dash, or
  starts with a digit or with \<open>v\<close> and a digit. The four examples of the specification
  follow.
\<close>

theorem isPinnedVersionTag_classifies:
  "(isPinnedVersionTag t \<longleftrightarrow>
      toLowerCase t \<notin> {''latest'', ''stable'', ''main'', ''master'', ''edge'', ''dev'',
                         ''nightly'', ''beta'', ''alpha'', ''rc''}
      \<and> (\<exists>c \<in> set t. c \<in> set ''0123456789'')
      \<and> (CHR ''.'' \<in> set t \<or> CHR ''-'' \<in> set t
          \<or> (\<exists>d r. d \<in> set ''0123456789'' \<and> (t = d # r \<or> t = CHR ''v'' # d # r))))
   \<and> \<not> isPinnedVersionTag ''latest'' \<and> isPinnedVersionTag ''1.22.4''
   \<and> isPinnedVersionTag ''v2.0.0-rc1'' \<and> \<not> isPinnedVersionTag ''nightly''"
proof -
  have dyn: "toLowerCase t \<in> set dynamicTags \<longleftrightarrow>
      toLowerCase t \<in> {''latest'', ''stable'', ''main'', ''master'', ''edge'', ''dev'',
                         ''nightly'', ''beta'', ''alpha'', ''rc''}"
    by (simp add: dynamicTags_def)
  have dig: "test_digit t \<longleftrightarrow> (\<exists>c \<in> set t. c \<in> set ''0123456789'')"
    by (simp add: test_digit_def list_ex_iff isDigit_def)
  have mv: "match_v_digit t \<longleftrightarrow>
      (\<exists>d r. d \<in> set ''0123456789'' \<and> (t = d # r \<or> t = CHR ''v'' # d # r))"
    unfolding match_v_digit_iff by (simp add: isDigit_def)
  have general: "isPinnedVersionTag t \<longleftrightarrow>
      toLowerCase t \<notin> {''latest'', ''stable'', ''main'', ''master'', ''edge'', ''dev'',
                         ''nightly'', ''beta'', ''alpha'', ''rc''}
      \<and> (\<exists>c \<in> set t. c \<in> set ''0123456789'')
      \<and> (CHR ''.'' \<in> set t \<or> CHR ''-'' \<in> set t
          \<or> (\<exists>d r. d \<in> set ''0123456789'' \<and> (t = d # r \<or> t = CHR ''v'' # d # r)))"
    unfolding isPinnedVersionTag_def dyn dig mv includes_char by simp
  have ex: "\<not> isPinnedVersionTag ''latest''" "isPinnedVersionTag ''1.22.4''"
    "isPinnedVersionTag ''v2.0.0-rc1''" "\<not> isPinnedVersionTag ''nightly''"
    by (simp_all add: isPinnedVersionTag_def toLowerCase_def toLowerChar_def dynamicTags_def
        test_digit_def isDigit_def js_defs)
  from general ex show ?thesis by blast
qed

theorem isPinnedVersionTag_classifies_witness:
  "isPinnedVersionTag ''2023.12.21-5ed3693'' \<and> \<not> isPinnedVersionTag ''LATEST''
   \<and> \<not> isPinnedVersionTag ''bookworm''"
proof -
  have a: "toLowerCase ''2023.12.21-5ed3693'' = ''2023.12.21-5ed3693''"
    and b: "toLowerCase ''LATEST'' = ''latest''"
    and c: "toLowerCase ''bookworm'' = ''bookworm''"
    by (simp_all add: toLowerCase_def toLowerChar_def)
  show ?thesis
    using isPinnedVersionTag_classifies [of "''2023.12.21-5ed3693''"]
      isPinnedVersionTag_classifies [of "''LATEST''"]
      isPinnedVersionTag_classifies [of "''bookworm''"]
    by (simp add: a b c)
qed

section \<open>Self-update guard\<close>

text \<open>
  Claim C2, as amended. The guard matches exactly when the own ID is known and not empty
  and either the target ID starts with the first 12 characters of the own ID or the
  target ID is a prefix of the own ID. Hence whenever one ID is a prefix of the other
  the guard matches; a full 64-character ID and its 12-character prefix match in both
  directions; and an ID that shares no such prefix is not matched.
\<close>

theorem isSelfUpdate_amended:
  "(isSelfUpdate ownId containerId \<longleftrightarrow>
      (\<exists>own. ownId = Some own \<and> own \<noteq> []
         \<and> (prefix (take 12 own) containerId \<or> prefix containerId own)))
   \<and> (own \<noteq> [] \<and> (prefix own containerId \<or> prefix containerId own)
        \<longrightarrow> isSelfUpdate (Some own) containerId)
   \<and> isSelfUpdate (Some ''abc123def4567890abc123def4567890abc123def4567890abc123def4567890'')
        ''abc123def456''
   \<and> isSelfUpdate (Some ''abc123def456'')
        ''abc123def4567890abc123def4567890abc123def4567890abc123def4567890''
   \<and> \<not> isSelfUpdate (Some ''abc123def4567890abc123def4567890abc123def4567890abc123def4567890'')
        ''0123456789ab''"
proof -
  have general: "isSelfUpdate oid cid \<longleftrightarrow>
      (\<exists>own. oid = Some own \<and> own \<noteq> [] \<and> (prefix (take 12 own) cid \<or> prefix cid own))"
    for oid cid
    using substring_take[of _ 12]
    by (cases oid) (auto simp: isSelfUpdate_def startsWith_prefix)
  have pre: "isSelfUpdate (Some own) containerId"
    if "own \<noteq> []" "prefix own containerId \<or> prefix containerId own"
  proof -
    have "prefix (take 12 own) own" by (rule take_is_prefix)
    with that show ?thesis
      unfolding general by (auto intro: prefix_order.trans)
  qed
  have ex: "isSelfUpdate (Some ''abc123def4567890abc123def4567890abc123def4567890abc123def4567890'')
        ''abc123def456''"
    "isSelfUpdate (Some ''abc123def456'')
        ''abc123def4567890abc123def4567890abc123def4567890abc123def4567890''"
    "\<not> isSelfUpdate (Some ''abc123def4567890abc123def4567890abc123def4567890abc123def4567890'')
        ''0123456789ab''"
    by (simp_all add: isSelfUpdate_def js_defs)
  from general pre ex show ?thesis by blast
qed

theorem isSelfUpdate_amended_witness:
  "isSelfUpdate (Some ''0f1e2d3c4b5a69788796a5b4c3d2e1f00f1e2d3c4b5a69788796a5b4c3d2e1f0'')
     ''0f1e2d3c4b5a''"
proof -
  have "prefix ''0f1e2d3c4b5a''
          ''0f1e2d3c4b5a69788796a5b4c3d2e1f00f1e2d3c4b5a69788796a5b4c3d2e1f0''"
    by simp
  then show ?thesis
    using isSelfUpdate_amended
      [of _ "''0f1e2d3c4b5a''" "''0f1e2d3c4b5a69788796a5b4c3d2e1f00f1e2d3c4b5a69788796a5b4c3d2e1f0''"]
    by simp
qed

text \<open>
  The converse of the claim fails: two different full IDs with the same first 12
  characters match although neither is a prefix of the other, because the source compares
  with \<^verbatim>\<open>ownId.substring(0, 12)\<close>.
\<close>

theorem isSelfUpdate_prefix_counterexample:
  "isSelfUpdate (Some ''abc123def4567890abc123def4567890abc123def4567890abc123def4567890'')
     ''abc123def456ffffffffffffffffffffffffffffffffffffffffffffffffffff''
   \<and> \<not> prefix ''abc123def4567890abc123def4567890abc123def4567890abc123def4567890''
          ''abc123def456ffffffffffffffffffffffffffffffffffffffffffffffffffff''
   \<and> \<not> prefix ''abc123def456ffffffffffffffffffffffffffffffffffffffffffffffffffff''
          ''abc123def4567890abc123def4567890abc123def4567890abc123def4567890''"
  by (simp add: isSelfUpdate_def js_defs)

section \<open>Log frame demuxer\<close>

lemmas buffer_defs = buffer_slice_def byteAt_def readUInt32BE_def

lemma demux_loop_unfold:
  assumes "offset + 8 \<le> length buffer"
  shows "demux_loop d tr buffer offset acc =
     (if length buffer < offset + 8 + be32 (buffer ! (offset + 4)) (buffer ! (offset + 5))
            (buffer ! (offset + 6)) (buffer ! (offset + 7))
      then Inr acc
      else demux_loop d tr buffer
             (offset + 8 + be32 (buffer ! (offset + 4)) (buffer ! (offset + 5))
                (buffer ! (offset + 6)) (buffer ! (offset + 7)))
             (acc @ emit_line d tr (buffer ! offset)
                (take (be32 (buffer ! (offset + 4)) (buffer ! (offset + 5))
                        (buffer ! (offset + 6)) (buffer ! (offset + 7)))
                   (drop (offset + 8) buffer))))"
proof -
  have hdr: "buffer_slice buffer offset (offset + 8) = Inr (take 8 (drop offset buffer))"
    using assms by (simp add: buffer_slice_def)
  have len: "length (take 8 (drop offset buffer)) = 8"
    using assms by simp
  have b0: "byteAt (take 8 (drop offset buffer)) 0 = Inr (buffer ! offset)"
    using assms by (simp add: byteAt_def)
  have sz: "readUInt32BE (take 8 (drop offset buffer)) 4 =
      Inr (be32 (buffer ! (offset + 4)) (buffer ! (offset + 5))
            (buffer ! (offset + 6)) (buffer ! (offset + 7)))"
    using assms by (simp add: readUInt32BE_def be32_def)
  have pl: "\<And>n. \<not> length buffer < offset + 8 + n \<Longrightarrow>
      buffer_slice buffer (offset + 8) (offset + 8 + n) = Inr (take n (drop (offset + 8) buffer))"
    by (simp add: buffer_slice_def)
  show ?thesis
    using assms
    by (subst demux_loop.simps) (simp add: hdr b0 sz pl Let_def emit_line_def)
qed

lemma demux_loop_frame:
  assumes "complete_frame f"
  shows "demux_loop d tr (pre @ frame_bytes f @ rest) (length pre) acc =
         demux_loop d tr (pre @ frame_bytes f @ rest) (length (pre @ frame_bytes f))
           (acc @ emitted d tr f)"
proof (cases f)
  case (Frame t r1 r2 r3 b4 b5 b6 b7 p)
  with assms have len: "be32 b4 b5 b6 b7 = length p" by simp
  have "length pre + 8 \<le> length (pre @ frame_bytes f @ rest)"
    by (simp add: Frame)
  from demux_loop_unfold[OF this, of d tr acc]
  have "demux_loop d tr (pre @ frame_bytes f @ rest) (length pre) acc =
        demux_loop d tr (pre @ frame_bytes f @ rest) (length pre + 8 + length p)
          (acc @ emitted d tr f)"
    by (simp add: Frame nth_append len)
  moreover have "length (pre @ frame_bytes f) = length pre + 8 + length p"
    by (simp add: Frame)
  ultimately show ?thesis by (simp only:)
qed

lemma demux_loop_tail:
  assumes "truncated_tail t"
  shows "demux_loop d tr (pre @ t) (length pre) acc = Inr acc"
proof (cases "length t < 8")
  case True
  then show ?thesis by (subst demux_loop.simps) simp
next
  case False
  with assms have big: "length t < 8 + be32 (t ! 4) (t ! 5) (t ! 6) (t ! 7)"
    by (simp add: truncated_tail_def)
  from False have "length pre + 8 \<le> length (pre @ t)" by simp
  from demux_loop_unfold[OF this, of d tr acc] show ?thesis
    using big by (simp add: nth_append)
qed

lemma demux_loop_frames:
  assumes "\<forall>f \<in> set fs. complete_frame f" "truncated_tail t"
  shows "demux_loop d tr (pre @ concat (map frame_bytes fs) @ t) (length pre) acc =
         Inr (acc @ concat (map (emitted d tr) fs))"
  using assms
proof (induction fs arbitrary: pre acc)
  case Nil
  then show ?case by (simp add: demux_loop_tail)
next
  case (Cons f fs)
  have "demux_loop d tr (pre @ concat (map frame_bytes (f # fs)) @ t) (length pre) acc =
        demux_loop d tr (pre @ frame_bytes f @ (concat (map frame_bytes fs) @ t)) (length pre) acc"
    by simp
  also have "\<dots> = demux_loop d tr (pre @ frame_bytes f @ (concat (map frame_bytes fs) @ t))
        (length (pre @ frame_bytes f)) (acc @ emitted d tr f)"
    using Cons.prems by (intro demux_loop_frame) simp
  also have "\<dots> = demux_loop d tr ((pre @ frame_bytes f) @ concat (map frame_bytes fs) @ t)
        (length (pre @ frame_bytes f)) (acc @ emitted d tr f)"
    by simp
  also have "\<dots> = Inr ((acc @ emitted d tr f) @ concat (map (emitted d tr) fs))"
    using Cons.prems by (intro Cons.IH) simp_all
  finally show ?case by simp
qed

lemma buffer_frames:
  "\<exists>fs t. buffer = concat (map frame_bytes fs) @ t \<and> (\<forall>f \<in> set fs. complete_frame f)
      \<and> truncated_tail t"
proof (induction "length buffer" arbitrary: buffer rule: less_induct)
  case less
  show ?case
  proof (cases "truncated_tail buffer")
    case True
    then have "buffer = concat (map frame_bytes []) @ buffer \<and> (\<forall>f \<in> set []. complete_frame f)
        \<and> truncated_tail buffer" by simp
    then show ?thesis by blast
  next
    case False
    then have l8: "8 \<le> length buffer"
      and lp: "8 + be32 (buffer ! 4) (buffer ! 5) (buffer ! 6) (buffer ! 7) \<le> length buffer"
      by (simp_all add: truncated_tail_def)
    define n where "n = be32 (buffer ! 4) (buffer ! 5) (buffer ! 6) (buffer ! 7)"
    define f where "f = Frame (buffer ! 0) (buffer ! 1) (buffer ! 2) (buffer ! 3)
        (buffer ! 4) (buffer ! 5) (buffer ! 6) (buffer ! 7) (take n (drop 8 buffer))"
    define rest where "rest = drop (8 + n) buffer"
    have hd8: "buffer = [buffer ! 0, buffer ! 1, buffer ! 2, buffer ! 3,
        buffer ! 4, buffer ! 5, buffer ! 6, buffer ! 7] @ drop 8 buffer"
    proof -
      from l8 have "buffer \<noteq> []" by auto
      with l8 show ?thesis by (simp add: eval_nat_numeral Cons_nth_drop_Suc)
    qed
    have "drop 8 buffer = take n (drop 8 buffer) @ drop (n + 8) buffer"
      by (metis append_take_drop_id drop_drop)
    with hd8 have split: "buffer = frame_bytes f @ rest"
      by (simp add: f_def rest_def add.commute)
    have cf: "complete_frame f"
      using lp by (simp add: f_def n_def)
    have "length rest < length buffer"
      using l8 by (simp add: rest_def)
    from less[OF this] obtain fs t where
      r: "rest = concat (map frame_bytes fs) @ t" "\<forall>f \<in> set fs. complete_frame f" "truncated_tail t"
      by blast
    have "buffer = concat (map frame_bytes (f # fs)) @ t \<and> (\<forall>g \<in> set (f # fs). complete_frame g)
        \<and> truncated_tail t"
      using split r cf by simp
    then show ?thesis by blast
  qed
qed

text \<open>
  Claim C7. For every buffer and every decoder: (1) the loop returns a list of lines and
  no read leaves the buffer; (2) on a buffer made of complete frames (an 8-byte header
  whose bytes 4 to 7 hold the payload length, big-endian, then that many payload bytes)
  followed by a truncated tail (fewer than 8 bytes, or a header announcing more payload
  than is left) the result is, in order, the line of each complete frame whose trimmed
  text is not empty, stream \<open>stdout\<close> for type 1 and \<open>stderr\<close> otherwise, so for type 2;
  (3) every buffer is of that form; (4) the example of the specification.
\<close>

theorem demux_frames:
  "(\<exists>logLines. demux toStringUtf8 trim buffer = Inr logLines)
   \<and> (\<forall>fs t. (\<forall>f \<in> set fs. complete_frame f) \<and> truncated_tail t \<longrightarrow>
         demux toStringUtf8 trim (concat (map frame_bytes fs) @ t) =
           Inr (concat (map (emitted toStringUtf8 trim) fs)))
   \<and> (\<exists>fs t. buffer = concat (map frame_bytes fs) @ t \<and> (\<forall>f \<in> set fs. complete_frame f)
         \<and> truncated_tail t)
   \<and> (trim (toStringUtf8 [104, 101, 108, 108, 111]) = ''hello''
        \<and> trim (toStringUtf8 [101, 114, 114]) = ''err'' \<longrightarrow>
        demux toStringUtf8 trim
          ([1, 0, 0, 0, 0, 0, 0, 5] @ [104, 101, 108, 108, 111]
           @ [2, 0, 0, 0, 0, 0, 0, 3] @ [101, 114, 114]) =
          Inr [\<lparr>stream = ''stdout'', message = ''hello''\<rparr>,
               \<lparr>stream = ''stderr'', message = ''err''\<rparr>])"
proof -
  have frames: "demux toStringUtf8 trim (concat (map frame_bytes fs) @ t) =
      Inr (concat (map (emitted toStringUtf8 trim) fs))"
    if "\<forall>f \<in> set fs. complete_frame f" "truncated_tail t" for fs t
    using demux_loop_frames [OF that, of toStringUtf8 trim "[]" "[]"]
    by (simp add: demux_def)
  obtain fs t where split: "buffer = concat (map frame_bytes fs) @ t"
    "\<forall>f \<in> set fs. complete_frame f" "truncated_tail t"
    using buffer_frames [of buffer] by blast
  have total: "\<exists>logLines. demux toStringUtf8 trim buffer = Inr logLines"
    using frames [OF split(2,3)] split(1) by simp
  have example: "demux toStringUtf8 trim
          ([1, 0, 0, 0, 0, 0, 0, 5] @ [104, 101, 108, 108, 111]
           @ [2, 0, 0, 0, 0, 0, 0, 3] @ [101, 114, 114]) =
          Inr [\<lparr>stream = ''stdout'', message = ''hello''\<rparr>,
               \<lparr>stream = ''stderr'', message = ''err''\<rparr>]"
    if h: "trim (toStringUtf8 [104, 101, 108, 108, 111]) = ''hello''"
      "trim (toStringUtf8 [101, 114, 114]) = ''err''"
  proof -
    have "demux toStringUtf8 trim
        (concat (map frame_bytes [Frame 1 0 0 0 0 0 0 5 [104, 101, 108, 108, 111],
                                  Frame 2 0 0 0 0 0 0 3 [101, 114, 114]]) @ []) =
        Inr (concat (map (emitted toStringUtf8 trim)
               [Frame 1 0 0 0 0 0 0 5 [104, 101, 108, 108, 111],
                Frame 2 0 0 0 0 0 0 3 [101, 114, 114]]))"
      by (rule frames) (simp_all add: be32_def truncated_tail_def)
    then show ?thesis by (simp add: emit_line_def h)
  qed
  from total frames split example show ?thesis by blast
qed

text \<open>A buffer cut in the middle of the third payload gives the two complete frames.\<close>

theorem demux_frames_witness:
  "demux (\<lambda>b. if b = [104, 101, 108, 108, 111] then ''hello''
               else if b = [101, 114, 114] then ''err'' else []) (\<lambda>s. s)
     ([1, 0, 0, 0, 0, 0, 0, 5, 104, 101, 108, 108, 111,
       2, 0, 0, 0, 0, 0, 0, 3, 101, 114, 114,
       1, 0, 0, 0, 0, 0, 0, 9, 120]) =
   Inr [\<lparr>stream = ''stdout'', message = ''hello''\<rparr>, \<lparr>stream = ''stderr'', message = ''err''\<rparr>]"
proof -
  have c: "\<forall>f \<in> set [Frame 1 0 0 0 0 0 0 5 [104, 101, 108, 108, 111],
                       Frame 2 0 0 0 0 0 0 3 [101, 114, 114]]. complete_frame f"
    by (simp add: be32_def)
  have t: "truncated_tail [1, 0, 0, 0, 0, 0, 0, 9, 120]"
    by (simp add: truncated_tail_def be32_def)
  from demux_frames
    [of "\<lambda>b. if b = [104, 101, 108, 108, 111] then ''hello''
             else if b = [101, 114, 114] then ''err'' else []" "\<lambda>s. s" "[]"]
  have "demux (\<lambda>b. if b = [104, 101, 108, 108, 111] then ''hello''
               else if b = [101, 114, 114] then ''err'' else []) (\<lambda>s. s)
      (concat (map frame_bytes [Frame 1 0 0 0 0 0 0 5 [104, 101, 108, 108, 111],
                                Frame 2 0 0 0 0 0 0 3 [101, 114, 114]])
       @ [1, 0, 0, 0, 0, 0, 0, 9, 120]) =
      Inr (concat (map (emitted (\<lambda>b. if b = [104, 101, 108, 108, 111] then ''hello''
               else if b = [101, 114, 114] then ''err'' else []) (\<lambda>s. s))
             [Frame 1 0 0 0 0 0 0 5 [104, 101, 108, 108, 111],
              Frame 2 0 0 0 0 0 0 3 [101, 114, 114]]))"
    using c t by blast
  then show ?thesis by (simp add: emit_line_def)
qed

section \<open>Update detector: what a pass changes\<close>

lemmas io_defs = emit_def now_def isoNow_def listImages_def listContainers_def inspect_def pull_def
  stop_def remove_container_def createContainer_def start_def getDockerHubToken_def

lemma getRemoteDigest_facts:
  assumes "getRemoteDigest w n s = (x, s')"
  shows "s' = s\<lparr>trace := trace s'\<rparr>"
    and "\<exists>ev evs. trace s' = trace s @ ev # evs \<and> is_registry_request ev
           \<and> (\<forall>e \<in> set evs. is_registry_request e)"
    and "\<forall>d. x = Inr d \<longrightarrow> d \<noteq> []"
  using assms
  by (auto simp: getRemoteDigest_def io_defs Let_def
      split: if_splits sum.splits http_outcome.splits option.splits)

lemma emit_fields [simp]:
  "trace (emit e s) = trace s @ [e]"
  "updateCache (emit e s) = updateCache s"
  "updateLogs (emit e s) = updateLogs s"
  "logIdCounter (emit e s) = logIdCounter s"
  "ownContainerId (emit e s) = ownContainerId s"
  by (simp_all add: emit_def)

lemma getRemoteDigest_fields:
  assumes "getRemoteDigest w n s = (x, s')"
  shows "updateCache s' = updateCache s" "updateLogs s' = updateLogs s"
    "logIdCounter s' = logIdCounter s" "ownContainerId s' = ownContainerId s"
proof -
  from getRemoteDigest_facts(1)[OF assms] have "s' = s\<lparr>trace := trace s'\<rparr>" .
  then have "updateCache s' = updateCache (s\<lparr>trace := trace s'\<rparr>)"
    "updateLogs s' = updateLogs (s\<lparr>trace := trace s'\<rparr>)"
    "logIdCounter s' = logIdCounter (s\<lparr>trace := trace s'\<rparr>)"
    "ownContainerId s' = ownContainerId (s\<lparr>trace := trace s'\<rparr>)"
    by simp_all
  then show "updateCache s' = updateCache s" "updateLogs s' = updateLogs s"
    "logIdCounter s' = logIdCounter s" "ownContainerId s' = ownContainerId s"
    by simp_all
qed

lemma checkImageUpdate_try_Inl:
  assumes "checkImageUpdate_try w n lid r p s = (Inl e, s')"
  shows "updateCache s' = updateCache s" "updateLogs s' = updateLogs s"
    "logIdCounter s' = logIdCounter s" "ownContainerId s' = ownContainerId s"
    "\<exists>ev evs. trace s' = trace s @ ev # evs \<and> is_registry_request ev"
    "getRemoteDigest w n s = (Inl e, s')
     \<or> (\<exists>d s0. getRemoteDigest w n s = (Inr d, s0) \<and> listImages w s0 = (Inl e, s'))"
proof -
  obtain x s0 where g: "getRemoteDigest w n s = (x, s0)" by (cases "getRemoteDigest w n s")
  note f = getRemoteDigest_fields[OF g] getRemoteDigest_facts(2)[OF g]
  show "updateCache s' = updateCache s" "updateLogs s' = updateLogs s"
    "logIdCounter s' = logIdCounter s" "ownContainerId s' = ownContainerId s"
    "\<exists>ev evs. trace s' = trace s @ ev # evs \<and> is_registry_request ev"
    "getRemoteDigest w n s = (Inl e, s')
     \<or> (\<exists>d s0. getRemoteDigest w n s = (Inr d, s0) \<and> listImages w s0 = (Inl e, s'))"
    using assms f
    by (auto simp: checkImageUpdate_try_def g listImages_def now_def Let_def
        split: sum.splits prod.splits if_splits)
qed

lemma checkImageUpdate_try_Inr:
  assumes "checkImageUpdate_try w n lid r p s = (Inr res, s')"
  shows "updateCache s' = (updateCache s)(n \<mapsto> res)" "updateLogs s' = updateLogs s"
    "logIdCounter s' = logIdCounter s" "ownContainerId s' = ownContainerId s"
    "\<exists>ev evs. trace s' = trace s @ ev # evs \<and> is_registry_request ev"
    "\<exists>h t rd ld lt. res = FullResult h t rd ld lid lt p"
proof -
  obtain x s0 where g: "getRemoteDigest w n s = (x, s0)" by (cases "getRemoteDigest w n s")
  note f = getRemoteDigest_fields[OF g] getRemoteDigest_facts(2)[OF g]
  obtain y s1 where g2: "getRemoteDigest w (repository r @ '':latest'') (emit EvListImages s0) = (y, s1)"
    by (cases "getRemoteDigest w (repository r @ '':latest'') (emit EvListImages s0)")
  note f2 = getRemoteDigest_fields[OF g2] getRemoteDigest_facts(2)[OF g2]
  show "updateCache s' = (updateCache s)(n \<mapsto> res)" "updateLogs s' = updateLogs s"
    "logIdCounter s' = logIdCounter s" "ownContainerId s' = ownContainerId s"
    "\<exists>ev evs. trace s' = trace s @ ev # evs \<and> is_registry_request ev"
    "\<exists>h t rd ld lt. res = FullResult h t rd ld lid lt p"
    using assms f f2
    by (auto simp: checkImageUpdate_try_def g g2 listImages_def now_def Let_def
        split: sum.splits prod.splits if_splits)
qed

lemma checkImageUpdate_fresh_facts:
  assumes "checkImageUpdate_fresh w n lid s = (res, s')"
  shows "updateCache s' = (updateCache s)(n \<mapsto> res) \<and> updateLogs s' = updateLogs s \<and>
    logIdCounter s' = logIdCounter s \<and> ownContainerId s' = ownContainerId s \<and>
    (\<exists>ev evs. trace s' = trace s @ ev # evs \<and> is_registry_request ev) \<and>
    localImageId_of res = Some lid \<and> checkedAt_of res \<noteq> None"
proof -
  obtain x s0 where t: "checkImageUpdate_try w n lid (parseImageName n)
      (isPinnedVersionTag (tag (parseImageName n))) s = (x, s0)"
    by (cases "checkImageUpdate_try w n lid (parseImageName n)
      (isPinnedVersionTag (tag (parseImageName n))) s")
  show ?thesis
  proof (cases x)
    case (Inl e)
    note f = checkImageUpdate_try_Inl[OF t[unfolded Inl]]
    from assms f(1-5) show ?thesis
      by (auto simp: checkImageUpdate_fresh_def t Inl now_def Let_def)
  next
    case (Inr r)
    note f = checkImageUpdate_try_Inr[OF t[unfolded Inr]]
    from assms f show ?thesis
      by (auto simp: checkImageUpdate_fresh_def t Inr Let_def)
  qed
qed

lemma checkImageUpdate_stored:
  assumes "checkImageUpdate w n lid s = (res, s')" "n \<noteq> []" "\<not> startsWith n ''sha256:''"
  shows "updateCache s' n = Some res \<and> localImageId_of res = Some lid \<and> checkedAt_of res \<noteq> None"
proof (cases "updateCache s n")
  case None
  with assms have "checkImageUpdate_fresh w n lid s = (res, s')"
    by (simp add: checkImageUpdate_def)
  from checkImageUpdate_fresh_facts[OF this] show ?thesis by simp
next
  case (Some cached)
  show ?thesis
  proof (cases "(case checkedAt_of cached of None \<Rightarrow> False
                 | Some c \<Rightarrow> dateNow w (trace s) - c < CACHE_TTL)
                \<and> localImageId_of cached = Some lid")
    case True
    with assms Some have "res = cached" "s' = emit EvClock s"
      by (simp_all add: checkImageUpdate_def now_def)
    with True Some show ?thesis by (auto split: option.splits)
  next
    case False
    with assms Some have "checkImageUpdate_fresh w n lid (emit EvClock s) = (res, s')"
      by (auto simp: checkImageUpdate_def now_def)
    from checkImageUpdate_fresh_facts[OF this] show ?thesis by simp
  qed
qed


lemmas eval_defs = checkImageUpdate_def checkImageUpdate_fresh_def checkImageUpdate_try_def
  getRemoteDigest_def findLocalDigest_def matchesName_def matchesId_def replace_first_def
  split_second_def digest_error_def truthy_def io_defs initial_state_def
  parseImageName_def dockerHub_def isPinnedVersionTag_def toLowerCase_def toLowerChar_def
  dynamicTags_def test_digit_def isDigit_def js_defs Let_def CACHE_TTL_def


lemma offline_check:
  "checkImageUpdate offline_world ''nginx'' ''sha256:11'' initial_state =
     (ErrorResult 1000 ''sha256:11'' ''getaddrinfo ENOTFOUND auth.docker.io'',
      \<lparr>updateCache = [''nginx'' \<mapsto>
          ErrorResult 1000 ''sha256:11'' ''getaddrinfo ENOTFOUND auth.docker.io''],
       updateLogs = [], logIdCounter = 1, ownContainerId = None,
       trace = [EvTokenRequest ''library/nginx'', EvClock]\<rparr>)"
  by (simp add: eval_defs offline_world_def)

section \<open>Update detector: the cache\<close>

text \<open>
  Claim C3. (1) Let a call of \<^verbatim>\<open>checkImageUpdate\<close> return \<open>r1\<close> and leave the state \<open>s1\<close>.
  A second call for the same image name and the same local image ID, made in that state
  while the clock is less than \<open>CACHE_TTL\<close> (5 minutes) past the \<^verbatim>\<open>checkedAt\<close> of \<open>r1\<close>,
  returns \<open>r1\<close> again, leaves the cache as it is and makes no request but, at most, one
  reading of the clock; whatever the registry would answer the second time (\<open>w'\<close>).
  (2) When the cache holds an entry for a tagged image name whose \<^verbatim>\<open>localImageId\<close> is
  not the current one, the call reads the clock, then makes a registry request, and
  returns and stores a result that carries the current local image ID; the age of the
  entry plays no part.
\<close>

theorem checkImageUpdate_cache:
  "(checkImageUpdate w imageName localImageId s = (r1, s1)
      \<and> (\<forall>c. checkedAt_of r1 = Some c \<longrightarrow> dateNow w' (trace s1) - c < CACHE_TTL)
    \<longrightarrow> (\<exists>s2. checkImageUpdate w' imageName localImageId s1 = (r1, s2)
              \<and> updateCache s2 = updateCache s1
              \<and> (trace s2 = trace s1 \<or> trace s2 = trace s1 @ [EvClock])))
   \<and> (imageName \<noteq> [] \<and> \<not> startsWith imageName ''sha256:''
        \<and> updateCache s imageName = Some cached \<and> localImageId_of cached \<noteq> Some localImageId
      \<longrightarrow> (\<exists>r s' ev evs. checkImageUpdate w imageName localImageId s = (r, s')
              \<and> trace s' = trace s @ EvClock # ev # evs \<and> is_registry_request ev
              \<and> localImageId_of r = Some localImageId
              \<and> updateCache s' imageName = Some r))"
proof (intro conjI impI)
  assume a: "checkImageUpdate w imageName localImageId s = (r1, s1)
      \<and> (\<forall>c. checkedAt_of r1 = Some c \<longrightarrow> dateNow w' (trace s1) - c < CACHE_TTL)"
  show "\<exists>s2. checkImageUpdate w' imageName localImageId s1 = (r1, s2)
              \<and> updateCache s2 = updateCache s1
              \<and> (trace s2 = trace s1 \<or> trace s2 = trace s1 @ [EvClock])"
  proof (cases "imageName = [] \<or> startsWith imageName ''sha256:''")
    case True
    with a have "r1 = NoTagResult" "s1 = s"
      by (auto simp: checkImageUpdate_def)
    with True show ?thesis by (auto simp: checkImageUpdate_def)
  next
    case False
    with a have st: "updateCache s1 imageName = Some r1" "localImageId_of r1 = Some localImageId"
      "checkedAt_of r1 \<noteq> None"
      using checkImageUpdate_stored[of w imageName localImageId s r1 s1] by auto
    then obtain c where c: "checkedAt_of r1 = Some c" by auto
    with a have "dateNow w' (trace s1) - c < CACHE_TTL" by simp
    with False st c have "checkImageUpdate w' imageName localImageId s1 = (r1, emit EvClock s1)"
      by (simp add: checkImageUpdate_def now_def)
    then show ?thesis by simp
  qed
next
  assume b: "imageName \<noteq> [] \<and> \<not> startsWith imageName ''sha256:''
        \<and> updateCache s imageName = Some cached \<and> localImageId_of cached \<noteq> Some localImageId"
  obtain r s' where f: "checkImageUpdate_fresh w imageName localImageId (emit EvClock s) = (r, s')"
    by (cases "checkImageUpdate_fresh w imageName localImageId (emit EvClock s)")
  with b have c: "checkImageUpdate w imageName localImageId s = (r, s')"
    by (simp add: checkImageUpdate_def now_def)
  from checkImageUpdate_fresh_facts[OF f] obtain ev evs where
    "trace s' = trace s @ EvClock # ev # evs" "is_registry_request ev"
    "localImageId_of r = Some localImageId" "updateCache s' imageName = Some r"
    by auto
  with c show "\<exists>r s' ev evs. checkImageUpdate w imageName localImageId s = (r, s')
              \<and> trace s' = trace s @ EvClock # ev # evs \<and> is_registry_request ev
              \<and> localImageId_of r = Some localImageId
              \<and> updateCache s' imageName = Some r"
    by blast
qed

theorem checkImageUpdate_cache_witness:
  "\<exists>s2. checkImageUpdate offline_world ''nginx'' ''sha256:11''
           (snd (checkImageUpdate offline_world ''nginx'' ''sha256:11'' initial_state)) =
         (ErrorResult 1000 ''sha256:11'' ''getaddrinfo ENOTFOUND auth.docker.io'', s2)
       \<and> (trace s2 = [EvTokenRequest ''library/nginx'', EvClock]
            \<or> trace s2 = [EvTokenRequest ''library/nginx'', EvClock, EvClock])"
proof -
  let ?r1 = "ErrorResult 1000 ''sha256:11'' ''getaddrinfo ENOTFOUND auth.docker.io''"
  let ?s1 = "snd (checkImageUpdate offline_world ''nginx'' ''sha256:11'' initial_state)"
  have first: "checkImageUpdate offline_world ''nginx'' ''sha256:11'' initial_state = (?r1, ?s1)"
    by (simp add: offline_check)
  have tr: "trace ?s1 = [EvTokenRequest ''library/nginx'', EvClock]"
    by (simp add: offline_check)
  have ttl: "\<forall>c. checkedAt_of ?r1 = Some c \<longrightarrow>
        dateNow offline_world (trace ?s1) - c < CACHE_TTL"
    unfolding tr by (simp add: offline_world_def CACHE_TTL_def)
  from checkImageUpdate_cache
    [of offline_world "''nginx''" "''sha256:11''" initial_state ?r1 ?s1 offline_world,
      THEN conjunct1, rule_format, OF conjI [OF first ttl]]
  obtain s2 where "checkImageUpdate offline_world ''nginx'' ''sha256:11'' ?s1 = (?r1, s2)"
    "trace s2 = trace ?s1 \<or> trace s2 = trace ?s1 @ [EvClock]"
    by blast
  then show ?thesis
    unfolding tr by auto
qed

section \<open>Update detector: failures of the digest fetch\<close>






section \<open>Update detector: pinned tags and the tag latest\<close>









section \<open>Container recreator: what the requests change\<close>

lemma getRemoteDigest_detection:
  assumes "getRemoteDigest w n s = (x, s')"
  shows "\<exists>evs. trace s' = trace s @ evs \<and> list_all is_detection evs"
  using assms
  by (auto simp: getRemoteDigest_def io_defs Let_def
      split: if_splits sum.splits http_outcome.splits option.splits)

lemma checkImageUpdate_try_detection:
  assumes "checkImageUpdate_try w n lid r p s = (x, s')"
  shows "\<exists>evs. trace s' = trace s @ evs \<and> list_all is_detection evs"
proof -
  obtain x0 s0 where g: "getRemoteDigest w n s = (x0, s0)" by (cases "getRemoteDigest w n s")
  obtain y s1 where g2: "getRemoteDigest w (repository r @ '':latest'') (emit EvListImages s0) = (y, s1)"
    by (cases "getRemoteDigest w (repository r @ '':latest'') (emit EvListImages s0)")
  from getRemoteDigest_detection[OF g] obtain e1 where
    e1: "trace s0 = trace s @ e1" "list_all is_detection e1" by blast
  from getRemoteDigest_detection[OF g2] obtain e2 where
    e2: "trace s1 = trace s0 @ [EvListImages] @ e2" "list_all is_detection e2" by auto
  show ?thesis
    using assms e1 e2
    by (auto simp: checkImageUpdate_try_def g g2 listImages_def now_def Let_def
        split: sum.splits prod.splits if_splits)
qed

lemma checkImageUpdate_fresh_detection:
  assumes "checkImageUpdate_fresh w n lid s = (res, s')"
  shows "\<exists>evs. trace s' = trace s @ evs \<and> list_all is_detection evs"
proof -
  obtain x s0 where t: "checkImageUpdate_try w n lid (parseImageName n)
      (isPinnedVersionTag (tag (parseImageName n))) s = (x, s0)"
    by (cases "checkImageUpdate_try w n lid (parseImageName n)
      (isPinnedVersionTag (tag (parseImageName n))) s")
  from checkImageUpdate_try_detection[OF t] obtain e1 where
    e1: "trace s0 = trace s @ e1" "list_all is_detection e1" by blast
  show ?thesis
    using assms e1
    by (cases x) (auto simp: checkImageUpdate_fresh_def t now_def Let_def)
qed

lemma checkImageUpdate_facts:
  assumes "checkImageUpdate w n lid s = (res, s')"
  shows "(\<exists>evs. trace s' = trace s @ evs \<and> list_all is_detection evs)
    \<and> updateLogs s' = updateLogs s \<and> logIdCounter s' = logIdCounter s
    \<and> ownContainerId s' = ownContainerId s"
proof (cases "n = [] \<or> startsWith n ''sha256:''")
  case True
  with assms show ?thesis by (auto simp: checkImageUpdate_def)
next
  case False
  show ?thesis
  proof (cases "updateCache s n")
    case None
    with assms False have f: "checkImageUpdate_fresh w n lid s = (res, s')"
      by (simp add: checkImageUpdate_def)
    from checkImageUpdate_fresh_detection[OF f] checkImageUpdate_fresh_facts[OF f]
    show ?thesis by simp
  next
    case (Some cached)
    show ?thesis
    proof (cases "(case checkedAt_of cached of None \<Rightarrow> False
                   | Some c \<Rightarrow> dateNow w (trace s) - c < CACHE_TTL)
                  \<and> localImageId_of cached = Some lid")
      case True
      with assms Some False have "s' = emit EvClock s"
        by (simp_all add: checkImageUpdate_def now_def)
      then show ?thesis by simp
    next
      case c: False
      with assms Some False have f: "checkImageUpdate_fresh w n lid (emit EvClock s) = (res, s')"
        by (auto simp: checkImageUpdate_def now_def)
      from checkImageUpdate_fresh_detection[OF f] checkImageUpdate_fresh_facts[OF f]
      show ?thesis by auto
    qed
  qed
qed

lemma getOwnContainerId_facts:
  assumes "getOwnContainerId w s = (ownId, s')"
  shows "updateCache s' = updateCache s \<and> updateLogs s' = updateLogs s
    \<and> logIdCounter s' = logIdCounter s
    \<and> (trace s' = trace s \<or> trace s' = trace s @ [EvListContainers True])"
  using assms
  by (auto simp: getOwnContainerId_def listContainers_def
      split: if_splits sum.splits option.splits)

lemma update_first_ids:
  assumes "\<And>l. log_id (f l) = log_id l"
  shows "map log_id (update_first p f ls) = map log_id ls"
  using assms by (induction ls) auto

lemma update_first_head:
  "p l \<Longrightarrow> update_first p f (l # ls) = f l # ls"
  by simp

lemma update_failed_facts:
  assumes "update_failed e s = (resp, s')"
  shows "resp_status resp = 500 \<and> resp_selfUpdate resp = None
    \<and> resp_details resp = Some (error_message e)
    \<and> updateCache s' = updateCache s \<and> logIdCounter s' = logIdCounter s
    \<and> trace s' = trace s \<and> ownContainerId s' = ownContainerId s
    \<and> updateLogs s' =
        update_first (\<lambda>l. log_id l = String_num (logIdCounter s - 1))
          (\<lambda>l. l\<lparr>status := ''failed'', log_message := ''Failed to update: '' @ error_message e\<rparr>)
          (updateLogs s)"
  using assms by (auto simp: update_failed_def)

lemma update_container_cache:
  assumes "update_container w containerId targetTag s = (resp, s')"
  shows "(resp_status resp = 200 \<or> resp_status resp = 500)
    \<and> (resp_status resp = 200 \<longrightarrow>
         (\<exists>info. inspectResponse w (trace s) containerId = Inr info
            \<and> updateCache s' =
                (updateCache s)(targetImageName_of (Config_Image info) targetTag := None,
                                Config_Image info := None)))
    \<and> (resp_status resp = 500 \<longrightarrow> updateCache s' = updateCache s)"
proof (cases "inspectResponse w (trace s) containerId")
  case (Inl e)
  with assms have "update_failed e (emit (EvInspect containerId) s) = (resp, s')"
    by (simp add: update_container_def inspect_def)
  from update_failed_facts[OF this] show ?thesis by simp
next
  case (Inr info)
  obtain ownId s2 where own: "getOwnContainerId w (emit (EvInspect containerId) s) = (ownId, s2)"
    by (cases "getOwnContainerId w (emit (EvInspect containerId) s)")
  from getOwnContainerId_facts[OF own] have c2: "updateCache s2 = updateCache s" by simp
  show ?thesis
    using assms c2
    by (auto simp: update_container_def inspect_def Inr own isoNow_def pull_def stop_def
        remove_container_def createContainer_def start_def Let_def update_failed_def
        cache_delete_def update_logEntry_def
        split: sum.splits prod.splits if_splits)
qed

lemma update_first_ids_simp [simp]:
  "map log_id (update_first p (\<lambda>l. l\<lparr>status := a, log_message := b\<rparr>) ls) = map log_id ls"
  by (rule update_first_ids) simp

lemma update_container_logs:
  assumes "update_container w containerId targetTag s = (resp, s')"
  shows "(map log_id (updateLogs s') = map log_id (updateLogs s)
           \<and> logIdCounter s' = logIdCounter s)
       \<or> (map log_id (updateLogs s') = String_num (logIdCounter s) # map log_id (updateLogs s)
           \<and> logIdCounter s' = logIdCounter s + 1)"
proof (cases "inspectResponse w (trace s) containerId")
  case (Inl e)
  with assms have "update_failed e (emit (EvInspect containerId) s) = (resp, s')"
    by (simp add: update_container_def inspect_def)
  from update_failed_facts[OF this] show ?thesis by simp
next
  case (Inr info)
  obtain ownId s2 where own: "getOwnContainerId w (emit (EvInspect containerId) s) = (ownId, s2)"
    by (cases "getOwnContainerId w (emit (EvInspect containerId) s)")
  from getOwnContainerId_facts[OF own]
  have c2: "updateLogs s2 = updateLogs s" "logIdCounter s2 = logIdCounter s" by simp_all
  show ?thesis
    using assms c2
    by (auto simp: update_container_def inspect_def Inr own isoNow_def pull_def stop_def
        remove_container_def createContainer_def start_def Let_def update_failed_def
        cache_delete_def update_logEntry_def
        split: sum.splits prod.splits if_splits)
qed

lemma update_container_failure:
  assumes "update_container w containerId targetTag s = (resp, s')"
    and "resp_status resp = 500"
  shows "\<exists>m. resp_details resp = Some m
      \<and> ((logIdCounter s' = logIdCounter s
           \<and> updateLogs s' =
               update_first (\<lambda>l. log_id l = String_num (logIdCounter s - 1))
                 (\<lambda>l. l\<lparr>status := ''failed'', log_message := ''Failed to update: '' @ m\<rparr>)
                 (updateLogs s))
          \<or> (logIdCounter s' = logIdCounter s + 1
              \<and> (\<exists>entry. updateLogs s' = entry # updateLogs s
                    \<and> log_id entry = String_num (logIdCounter s)
                    \<and> status entry = ''failed''
                    \<and> log_message entry = ''Failed to update: '' @ m)))"
proof (cases "inspectResponse w (trace s) containerId")
  case (Inl e)
  with assms have "update_failed e (emit (EvInspect containerId) s) = (resp, s')"
    by (simp add: update_container_def inspect_def)
  from update_failed_facts[OF this] show ?thesis by auto
next
  case (Inr info)
  obtain ownId s2 where own: "getOwnContainerId w (emit (EvInspect containerId) s) = (ownId, s2)"
    by (cases "getOwnContainerId w (emit (EvInspect containerId) s)")
  from getOwnContainerId_facts[OF own]
  have c2: "updateLogs s2 = updateLogs s" "logIdCounter s2 = logIdCounter s" by simp_all
  show ?thesis
    using assms c2
    by (auto simp: update_container_def inspect_def Inr own isoNow_def pull_def stop_def
        remove_container_def createContainer_def start_def Let_def update_failed_def
        cache_delete_def update_logEntry_def
        split: sum.splits prod.splits if_splits)
qed

lemmas step_defs = update_all_step_def inspect_def isoNow_def pull_def stop_def
  remove_container_def createContainer_def start_def Let_def batch_failed_def push_def
  skipped_item_def cache_delete_def update_logEntry_def

lemma detection_not_recreation:
  "is_detection e \<Longrightarrow> \<not> is_recreation e \<and> (\<forall>i. e \<noteq> EvPull i)
      \<and> (\<forall>x. e \<noteq> EvStop x) \<and> (\<forall>x. e \<noteq> EvRemove x)"
  by (cases e) auto

lemma update_all_step_logs:
  assumes "update_all_step w ownId c (acc, s) = (acc', s')"
  shows "(map log_id (updateLogs s') = map log_id (updateLogs s)
           \<and> logIdCounter s' = logIdCounter s)
       \<or> (map log_id (updateLogs s') = String_num (logIdCounter s) # map log_id (updateLogs s)
           \<and> logIdCounter s' = logIdCounter s + 1)"
proof (cases "inspectResponse w (trace s) (container_Id c)")
  case (Inl e)
  with assms show ?thesis
    by (auto simp: step_defs)
next
  case (Inr info)
  obtain r s2 where ch: "checkImageUpdate w (Config_Image info) (Image info)
      (emit (EvInspect (container_Id c)) s) = (r, s2)"
    by (cases "checkImageUpdate w (Config_Image info) (Image info)
      (emit (EvInspect (container_Id c)) s)")
  from checkImageUpdate_facts[OF ch]
  have c2: "updateLogs s2 = updateLogs s" "logIdCounter s2 = logIdCounter s" by simp_all
  show ?thesis
    using assms c2
    by (auto simp: step_defs Inr ch split: sum.splits prod.splits if_splits)
qed

lemma update_all_step_events:
  assumes "update_all_step w ownId c (acc, s) = (acc', s')"
  shows "\<exists>evs. trace s' = trace s @ evs
      \<and> (\<forall>x. EvStop x \<in> set evs \<or> EvRemove x \<in> set evs
             \<longrightarrow> x = container_Id c \<and> \<not> isSelfUpdate ownId x)
      \<and> (isSelfUpdate ownId (container_Id c)
             \<longrightarrow> (\<forall>e \<in> set evs. \<not> is_recreation e \<and> (\<forall>i. e \<noteq> EvPull i)))"
proof (cases "inspectResponse w (trace s) (container_Id c)")
  case (Inl e)
  with assms show ?thesis
    by (auto simp: step_defs)
next
  case (Inr info)
  obtain r s2 where ch: "checkImageUpdate w (Config_Image info) (Image info)
      (emit (EvInspect (container_Id c)) s) = (r, s2)"
    by (cases "checkImageUpdate w (Config_Image info) (Image info)
      (emit (EvInspect (container_Id c)) s)")
  from checkImageUpdate_facts[OF ch] obtain evs where
    c2: "trace s2 = trace s @ EvInspect (container_Id c) # evs" "list_all is_detection evs"
    by auto
  have nd: "\<And>x. EvStop x \<notin> set evs" "\<And>x. EvRemove x \<notin> set evs"
    "\<And>i. EvPull i \<notin> set evs" "\<And>e. e \<in> set evs \<Longrightarrow> \<not> is_recreation e"
    using c2(2) detection_not_recreation by (auto simp: list_all_iff)
  show ?thesis
    using assms c2(1) nd
    by (auto simp: step_defs Inr ch split: sum.splits prod.splits if_splits)
qed

lemma update_all_step_results:
  assumes "update_all_step w ownId c (acc, s) = (acc', s')"
  shows "\<exists>item. results acc' = results acc @ [item]
      \<and> item_containerId item = container_Id c
      \<and> (isSelfUpdate ownId (container_Id c)
            \<longrightarrow> item_status item = ''skipped'' \<or> item_status item = ''failed'')
      \<and> ((item_selfUpdate item = None
            \<and> selfUpdateSkipped acc' = selfUpdateSkipped acc
            \<and> selfUpdateContainerName acc' = selfUpdateContainerName acc)
          \<or> (item_selfUpdate item = Some True \<and> item_status item = ''skipped''
              \<and> isSelfUpdate ownId (container_Id c)
              \<and> selfUpdateSkipped acc'
              \<and> (\<exists>n. selfUpdateContainerName acc' = Some n \<and> n \<noteq> []
                      \<and> item_containerName item = n)))"
proof (cases "inspectResponse w (trace s) (container_Id c)")
  case (Inl e)
  with assms show ?thesis
    by (auto simp: step_defs)
next
  case (Inr info)
  obtain r s2 where ch: "checkImageUpdate w (Config_Image info) (Image info)
      (emit (EvInspect (container_Id c)) s) = (r, s2)"
    by (cases "checkImageUpdate w (Config_Image info) (Image info)
      (emit (EvInspect (container_Id c)) s)")
  show ?thesis
    using assms
    by (auto simp: step_defs Inr ch split: sum.splits prod.splits if_splits list.splits)
qed

lemma newest_has_last_id_ids:
  "newest_has_last_id s \<longleftrightarrow>
     (case map log_id (updateLogs s) of [] \<Rightarrow> True
      | i # is \<Rightarrow> i = String_num (logIdCounter s - 1))"
  by (cases "updateLogs s") (simp_all add: newest_has_last_id_def)

lemma newest_has_last_id_step:
  assumes "newest_has_last_id s"
    and "(map log_id (updateLogs s') = map log_id (updateLogs s)
           \<and> logIdCounter s' = logIdCounter s)
       \<or> (map log_id (updateLogs s') = String_num (logIdCounter s) # map log_id (updateLogs s)
           \<and> logIdCounter s' = logIdCounter s + 1)"
  shows "newest_has_last_id s'"
  using assms unfolding newest_has_last_id_ids by (auto split: list.splits)

lemma update_all_loop_newest:
  assumes "newest_has_last_id (snd st)"
  shows "newest_has_last_id (snd (update_all_loop w ownId cs st))"
  using assms
proof (induction cs arbitrary: st)
  case Nil
  then show ?case by simp
next
  case (Cons c cs)
  obtain acc s where st: "st = (acc, s)" by (cases st)
  obtain acc' s' where step: "update_all_step w ownId c (acc, s) = (acc', s')"
    by (cases "update_all_step w ownId c (acc, s)")
  from Cons.prems st have "newest_has_last_id s" by simp
  from newest_has_last_id_step[OF this update_all_step_logs[OF step]]
  have "newest_has_last_id (snd (acc', s'))" by simp
  from Cons.IH[OF this] show ?case by (simp add: st step)
qed

lemma reachable_newest: "reachable s \<Longrightarrow> newest_has_last_id s"
proof (induction rule: reachable.induct)
  case reachable_initial
  then show ?case by (simp add: newest_has_last_id_def initial_state_def)
next
  case (reachable_check s w imageName localImageId)
  obtain r s' where c: "checkImageUpdate w imageName localImageId s = (r, s')"
    by (cases "checkImageUpdate w imageName localImageId s")
  from checkImageUpdate_facts[OF c] reachable_check.IH show ?case
    by (simp add: c newest_has_last_id_def split: list.splits)
next
  case (reachable_update s w containerId targetTag)
  obtain r s' where c: "update_container w containerId targetTag s = (r, s')"
    by (cases "update_container w containerId targetTag s")
  from newest_has_last_id_step[OF reachable_update.IH update_container_logs[OF c]]
  show ?case by (simp add: c)
next
  case (reachable_update_all s w)
  show ?case
  proof (cases "listContainersResponse w (trace s) False")
    case (Inl e)
    with reachable_update_all.IH show ?thesis
      by (simp add: update_all_def listContainers_def newest_has_last_id_def split: list.splits)
  next
    case (Inr containers)
    obtain ownId s2 where own: "getOwnContainerId w (emit (EvListContainers False) s) = (ownId, s2)"
      by (cases "getOwnContainerId w (emit (EvListContainers False) s)")
    from getOwnContainerId_facts[OF own] reachable_update_all.IH
    have "newest_has_last_id s2" by (simp add: newest_has_last_id_def split: list.splits)
    then have "newest_has_last_id (snd (update_all_loop w ownId containers
        (\<lparr>results = [], selfUpdateSkipped = False, selfUpdateContainerName = None\<rparr>, s2)))"
      using update_all_loop_newest by simp
    then show ?thesis
      by (auto simp: update_all_def listContainers_def Inr own Let_def split: prod.splits)
  qed
next
  case (reachable_clear_logs s)
  then show ?case by (simp add: newest_has_last_id_def clear_logs_def)
next
  case (reachable_clear_cache s)
  then show ?case by (simp add: newest_has_last_id_def clear_cache_def split: list.splits)
qed

lemma update_all_loop_facts:
  assumes "update_all_loop w ownId cs (acc, s) = (acc', s')"
  shows "\<exists>evs items. trace s' = trace s @ evs \<and> results acc' = results acc @ items
     \<and> (\<forall>x. EvStop x \<in> set evs \<or> EvRemove x \<in> set evs \<longrightarrow> \<not> isSelfUpdate ownId x)
     \<and> map item_containerId items = map container_Id cs
     \<and> (\<forall>item \<in> set items. isSelfUpdate ownId (item_containerId item)
           \<longrightarrow> item_status item = ''skipped'' \<or> item_status item = ''failed'')
     \<and> (\<forall>item \<in> set items. item_selfUpdate item = Some True
           \<longrightarrow> item_status item = ''skipped'' \<and> isSelfUpdate ownId (item_containerId item))
     \<and> (selfUpdateSkipped acc' \<longleftrightarrow>
           selfUpdateSkipped acc \<or> (\<exists>item \<in> set items. item_selfUpdate item = Some True))
     \<and> ((selfUpdateSkipped acc \<longrightarrow> (\<exists>n. selfUpdateContainerName acc = Some n \<and> n \<noteq> []))
          \<longrightarrow> (selfUpdateSkipped acc' \<longrightarrow> (\<exists>n. selfUpdateContainerName acc' = Some n \<and> n \<noteq> [])))"
  using assms
proof (induction cs arbitrary: acc s)
  case Nil
  then show ?case by simp
next
  case (Cons c cs)
  obtain acc1 s1 where step: "update_all_step w ownId c (acc, s) = (acc1, s1)"
    by (cases "update_all_step w ownId c (acc, s)")
  with Cons.prems have rest: "update_all_loop w ownId cs (acc1, s1) = (acc', s')" by simp
  from update_all_step_events[OF step] obtain evs1 where
    e1: "trace s1 = trace s @ evs1"
    "\<forall>x. EvStop x \<in> set evs1 \<or> EvRemove x \<in> set evs1 \<longrightarrow> \<not> isSelfUpdate ownId x"
    by blast
  from update_all_step_results[OF step] obtain item where
    i1: "results acc1 = results acc @ [item]" "item_containerId item = container_Id c"
    "isSelfUpdate ownId (container_Id c)
       \<longrightarrow> item_status item = ''skipped'' \<or> item_status item = ''failed''"
    "(item_selfUpdate item = None
            \<and> selfUpdateSkipped acc1 = selfUpdateSkipped acc
            \<and> selfUpdateContainerName acc1 = selfUpdateContainerName acc)
          \<or> (item_selfUpdate item = Some True \<and> item_status item = ''skipped''
              \<and> isSelfUpdate ownId (container_Id c)
              \<and> selfUpdateSkipped acc1
              \<and> (\<exists>n. selfUpdateContainerName acc1 = Some n \<and> n \<noteq> []
                      \<and> item_containerName item = n))"
    by blast
  from Cons.IH[OF rest] obtain evs items where
    r: "trace s' = trace s1 @ evs" "results acc' = results acc1 @ items"
    "\<forall>x. EvStop x \<in> set evs \<or> EvRemove x \<in> set evs \<longrightarrow> \<not> isSelfUpdate ownId x"
    "map item_containerId items = map container_Id cs"
    "\<forall>item \<in> set items. isSelfUpdate ownId (item_containerId item)
           \<longrightarrow> item_status item = ''skipped'' \<or> item_status item = ''failed''"
    "\<forall>item \<in> set items. item_selfUpdate item = Some True
           \<longrightarrow> item_status item = ''skipped'' \<and> isSelfUpdate ownId (item_containerId item)"
    "selfUpdateSkipped acc' \<longleftrightarrow>
           selfUpdateSkipped acc1 \<or> (\<exists>item \<in> set items. item_selfUpdate item = Some True)"
    "(selfUpdateSkipped acc1 \<longrightarrow> (\<exists>n. selfUpdateContainerName acc1 = Some n \<and> n \<noteq> []))
          \<longrightarrow> (selfUpdateSkipped acc' \<longrightarrow> (\<exists>n. selfUpdateContainerName acc' = Some n \<and> n \<noteq> []))"
    by blast
  have "trace s' = trace s @ (evs1 @ evs)" "results acc' = results acc @ (item # items)"
    using e1(1) r(1,2) i1(1) by simp_all
  moreover have "\<forall>x. EvStop x \<in> set (evs1 @ evs) \<or> EvRemove x \<in> set (evs1 @ evs)
      \<longrightarrow> \<not> isSelfUpdate ownId x"
    using e1(2) r(3) by auto
  moreover have "map item_containerId (item # items) = map container_Id (c # cs)"
    using i1(2) r(4) by simp
  moreover have "\<forall>it \<in> set (item # items). isSelfUpdate ownId (item_containerId it)
           \<longrightarrow> item_status it = ''skipped'' \<or> item_status it = ''failed''"
    using i1(2,3) r(5) by auto
  moreover have "\<forall>it \<in> set (item # items). item_selfUpdate it = Some True
           \<longrightarrow> item_status it = ''skipped'' \<and> isSelfUpdate ownId (item_containerId it)"
    using i1(2,4) r(6) by auto
  moreover have "selfUpdateSkipped acc' \<longleftrightarrow>
           selfUpdateSkipped acc \<or> (\<exists>it \<in> set (item # items). item_selfUpdate it = Some True)"
    using i1(4) r(7) by auto
  moreover have "(selfUpdateSkipped acc \<longrightarrow> (\<exists>n. selfUpdateContainerName acc = Some n \<and> n \<noteq> []))
          \<longrightarrow> (selfUpdateSkipped acc' \<longrightarrow> (\<exists>n. selfUpdateContainerName acc' = Some n \<and> n \<noteq> []))"
    using i1(4) r(8) by auto
  ultimately show ?case by blast
qed

lemma update_container_self:
  assumes u: "update_container w containerId targetTag s = (resp, s')"
    and i: "inspectResponse w (trace s) containerId = Inr info"
    and g: "isSelfUpdate (fst (getOwnContainerId w (emit (EvInspect containerId) s))) containerId"
  shows "(\<exists>evs. trace s' = trace s @ evs
            \<and> set evs \<subseteq> {EvInspect containerId, EvListContainers True, EvClock,
                           EvPull (targetImageName_of (Config_Image info) targetTag)}
            \<and> (\<forall>e \<in> set evs. \<not> is_recreation e))
       \<and> (resp_status resp = 200 \<longrightarrow>
             resp_selfUpdate resp = Some True \<and> resp_manualRestartRequired resp = Some True
             \<and> (\<exists>l ls. updateLogs s' = l # ls \<and> resp_log resp = Some l
                   \<and> status l = ''success''
                   \<and> log_message l = ''Image pulled for '' @ strip_slash (Name info)
                        @ ''. Please restart the container manually using: ''
                        @ ''docker compose up -d --force-recreate dockermaid''))
       \<and> (resp_status resp = 500 \<longrightarrow> resp_selfUpdate resp = None)
       \<and> ((\<forall>tr imageName. pullResponse w tr imageName = Inr ()) \<longrightarrow> resp_status resp = 200)"
proof -
  obtain ownId s2 where own: "getOwnContainerId w (emit (EvInspect containerId) s) = (ownId, s2)"
    by (cases "getOwnContainerId w (emit (EvInspect containerId) s)")
  from g own have self: "isSelfUpdate ownId containerId" by simp
  from getOwnContainerId_facts[OF own]
  have t2: "trace s2 = trace s @ [EvInspect containerId]
      \<or> trace s2 = trace s @ [EvInspect containerId, EvListContainers True]"
    by auto
  show ?thesis
    using u t2 self
    by (auto simp: update_container_def inspect_def i own isoNow_def pull_def Let_def
        update_failed_def cache_delete_def update_logEntry_def
        split: sum.splits prod.splits if_splits)
qed

lemma update_all_step_self_reported:
  assumes step: "update_all_step w ownId c (acc, s) = (acc', s')"
    and i: "inspectResponse w (trace s) (container_Id c) = Inr info"
    and tagged: "\<not> startsWith (Config_Image info) ''sha256:''"
    and upd: "hasUpdate_of (fst (checkImageUpdate w (Config_Image info) (Image info)
                (emit (EvInspect (container_Id c)) s)))"
    and g: "isSelfUpdate ownId (container_Id c)"
  shows "selfUpdateSkipped acc'
     \<and> (\<exists>n. selfUpdateContainerName acc' = Some n \<and> n \<noteq> [])
     \<and> (\<exists>item. results acc' = results acc @ [item] \<and> item_containerId item = container_Id c
           \<and> item_status item = ''skipped'' \<and> item_selfUpdate item = Some True
           \<and> Some (item_containerName item) = selfUpdateContainerName acc')"
proof -
  obtain r s2 where ch: "checkImageUpdate w (Config_Image info) (Image info)
      (emit (EvInspect (container_Id c)) s) = (r, s2)"
    by (cases "checkImageUpdate w (Config_Image info) (Image info)
      (emit (EvInspect (container_Id c)) s)")
  show ?thesis
    using step tagged upd g
    by (auto simp: step_defs i ch split: list.splits)
qed

lemma update_all_facts:
  assumes u: "update_all w s = (BatchOk res msg, s')"
    and l: "listContainersResponse w (trace s) False = Inr containers"
    and o: "ownId = fst (getOwnContainerId w (emit (EvListContainers False) s))"
  shows "(\<exists>evs. trace s' = trace s @ evs
           \<and> (\<forall>x. EvStop x \<in> set evs \<or> EvRemove x \<in> set evs \<longrightarrow> \<not> isSelfUpdate ownId x))
     \<and> map item_containerId (results res) = map container_Id containers
     \<and> (\<forall>item \<in> set (results res). isSelfUpdate ownId (item_containerId item)
           \<longrightarrow> item_status item = ''skipped'' \<or> item_status item = ''failed'')
     \<and> (\<forall>item \<in> set (results res). item_selfUpdate item = Some True
           \<longrightarrow> item_status item = ''skipped'' \<and> isSelfUpdate ownId (item_containerId item))
     \<and> (selfUpdateSkipped res \<longleftrightarrow>
           (\<exists>item \<in> set (results res). item_selfUpdate item = Some True))
     \<and> (selfUpdateSkipped res \<longrightarrow> (\<exists>n. selfUpdateContainerName res = Some n \<and> n \<noteq> []))"
proof -
  obtain own s2 where own: "getOwnContainerId w (emit (EvListContainers False) s) = (own, s2)"
    by (cases "getOwnContainerId w (emit (EvListContainers False) s)")
  with o have oo: "own = ownId" by simp
  from getOwnContainerId_facts[OF own]
  have t2: "trace s2 = trace s @ [EvListContainers False]
      \<or> trace s2 = trace s @ [EvListContainers False, EvListContainers True]"
    by auto
  let ?acc0 = "\<lparr>results = [], selfUpdateSkipped = False, selfUpdateContainerName = None\<rparr>"
  from u have loop: "update_all_loop w ownId containers (?acc0, s2) = (res, s')"
    by (auto simp: update_all_def listContainers_def l own oo Let_def split: prod.splits)
  from update_all_loop_facts[OF loop] obtain evs items where
    r: "trace s' = trace s2 @ evs" "results res = results ?acc0 @ items"
    "\<forall>x. EvStop x \<in> set evs \<or> EvRemove x \<in> set evs \<longrightarrow> \<not> isSelfUpdate ownId x"
    "map item_containerId items = map container_Id containers"
    "\<forall>item \<in> set items. isSelfUpdate ownId (item_containerId item)
           \<longrightarrow> item_status item = ''skipped'' \<or> item_status item = ''failed''"
    "\<forall>item \<in> set items. item_selfUpdate item = Some True
           \<longrightarrow> item_status item = ''skipped'' \<and> isSelfUpdate ownId (item_containerId item)"
    "selfUpdateSkipped res \<longleftrightarrow>
           selfUpdateSkipped ?acc0 \<or> (\<exists>item \<in> set items. item_selfUpdate item = Some True)"
    "(selfUpdateSkipped ?acc0 \<longrightarrow> (\<exists>n. selfUpdateContainerName ?acc0 = Some n \<and> n \<noteq> []))
          \<longrightarrow> (selfUpdateSkipped res \<longrightarrow> (\<exists>n. selfUpdateContainerName res = Some n \<and> n \<noteq> []))"
    by blast
  from r(2) have items: "results res = items" by simp
  have "\<exists>evs'. trace s' = trace s @ evs'
           \<and> (\<forall>x. EvStop x \<in> set evs' \<or> EvRemove x \<in> set evs' \<longrightarrow> \<not> isSelfUpdate ownId x)"
    using t2 r(1,3) by auto
  then show ?thesis
    using r(4-8) unfolding items by simp
qed

lemmas update_defs = update_container_def update_failed_def update_logEntry_def cache_delete_def
  newTag_of_def targetImageName_of_def formatImageName_def containerConfig_of_def
  getOwnContainerId_def strip_slash_def String_num_def get_prop_def

lemmas world_defs = offline_world_def registry_world_def self_world_def pull_refused_world_def
  up_to_date_world_def

lemmas state_defs = self_state_def cached_state_def

lemma update_all_step_self:
  assumes step: "update_all_step w ownId c (acc, s) = (acc', s')"
    and g: "isSelfUpdate ownId (container_Id c)"
  shows "logIdCounter s' = logIdCounter s
    \<and> map log_id (updateLogs s') = map log_id (updateLogs s)
    \<and> (\<exists>item. results acc' = results acc @ [item]
         \<and> (item_selfUpdate item = Some True \<longleftrightarrow>
              (\<exists>info. inspectResponse w (trace s) (container_Id c) = Inr info
                 \<and> \<not> startsWith (Config_Image info) ''sha256:''
                 \<and> hasUpdate_of (fst (checkImageUpdate w (Config_Image info) (Image info)
                      (emit (EvInspect (container_Id c)) s)))))
         \<and> (item_selfUpdate item \<noteq> Some True \<longrightarrow>
              selfUpdateSkipped acc' = selfUpdateSkipped acc
              \<and> selfUpdateContainerName acc' = selfUpdateContainerName acc
              \<and> (item_status item = ''failed''
                 \<or> item_message item = Some ''No image tag''
                 \<or> item_message item = Some ''No update available'')))"
proof (cases "inspectResponse w (trace s) (container_Id c)")
  case (Inl e)
  with assms show ?thesis
    by (auto simp: step_defs update_first_ids)
next
  case (Inr info)
  obtain r s2 where ch: "checkImageUpdate w (Config_Image info) (Image info)
      (emit (EvInspect (container_Id c)) s) = (r, s2)"
    by (cases "checkImageUpdate w (Config_Image info) (Image info)
      (emit (EvInspect (container_Id c)) s)")
  from checkImageUpdate_facts[OF ch]
  have c2: "updateLogs s2 = updateLogs s" "logIdCounter s2 = logIdCounter s" by simp_all
  show ?thesis
    using assms c2
    by (auto simp: step_defs Inr ch split: list.splits if_splits)
qed

section \<open>Container recreator: the cache after an update\<close>

text \<open>
  Claim C5, as amended. The single-container update answers with status 200 or with
  status 500. When it answers 200, on the path that replaces the container as on the
  self-update path, the entries of \<^verbatim>\<open>updateCache\<close> for the target image name and for the
  original image name are deleted and no other entry changes. When it answers 500, the
  \<^verbatim>\<open>catch\<close> handler has run, which does not touch the cache: \<^verbatim>\<open>updateCache\<close> is what it
  was before the request.
\<close>

theorem update_container_cache_amended:
  assumes "update_container w containerId targetTag s = (resp, s')"
  shows "(resp_status resp = 200 \<or> resp_status resp = 500)
    \<and> (resp_status resp = 200 \<longrightarrow>
         (\<exists>info. inspectResponse w (trace s) containerId = Inr info
            \<and> updateCache s' (targetImageName_of (Config_Image info) targetTag) = None
            \<and> updateCache s' (Config_Image info) = None
            \<and> updateCache s' =
                (updateCache s)(targetImageName_of (Config_Image info) targetTag := None,
                                Config_Image info := None)))
    \<and> (resp_status resp = 500 \<longrightarrow> updateCache s' = updateCache s)"
proof -
  note h = update_container_cache[OF assms]
  have "\<exists>info. inspectResponse w (trace s) containerId = Inr info
            \<and> updateCache s' (targetImageName_of (Config_Image info) targetTag) = None
            \<and> updateCache s' (Config_Image info) = None
            \<and> updateCache s' =
                (updateCache s)(targetImageName_of (Config_Image info) targetTag := None,
                                Config_Image info := None)"
    if "resp_status resp = 200"
  proof -
    from h that obtain info where i: "inspectResponse w (trace s) containerId = Inr info"
      and c: "updateCache s' =
                (updateCache s)(targetImageName_of (Config_Image info) targetTag := None,
                                Config_Image info := None)"
      by blast
    have "updateCache s' (targetImageName_of (Config_Image info) targetTag) = None"
      "updateCache s' (Config_Image info) = None"
      by (simp_all add: c)
    with i c show ?thesis by blast
  qed
  with h show ?thesis by blast
qed

theorem update_container_cache_amended_witness:
  "resp_status (fst (update_container self_world ''c0ffee'' None cached_state)) = 200
   \<and> updateCache (snd (update_container self_world ''c0ffee'' None cached_state)) ''nginx:latest''
       = None
   \<and> resp_selfUpdate (fst (update_container self_world ''c0ffee'' None self_state)) = Some True
   \<and> updateCache (snd (update_container self_world ''c0ffee'' None self_state)) ''nginx:latest''
       = None
   \<and> resp_status (fst (update_container pull_refused_world ''c0ffee'' None cached_state)) = 500
   \<and> updateCache (snd (update_container pull_refused_world ''c0ffee'' None cached_state))
       = updateCache cached_state"
proof -
  let ?info = "\<lparr>Name = ''/dockermaid'', Image = ''sha256:11'', Config_Image = ''nginx:latest'',
                Config = [], HostConfig = JNull, Networks = JNull\<rparr>"
  have i: "inspectResponse self_world tr x = Inr ?info" for tr x
    by (simp add: self_world_def)
  have t: "targetImageName_of ''nginx:latest'' None = ''nginx:latest''"
    by (simp add: update_defs eval_defs)
  have a: "resp_status (fst (update_container self_world ''c0ffee'' None cached_state)) = 200"
    by (simp add: update_defs eval_defs world_defs state_defs isSelfUpdate_def)
  have b: "resp_status (fst (update_container self_world ''c0ffee'' None self_state)) = 200"
    "resp_selfUpdate (fst (update_container self_world ''c0ffee'' None self_state)) = Some True"
    by (simp_all add: update_defs eval_defs world_defs state_defs isSelfUpdate_def)
  have c: "resp_status (fst (update_container pull_refused_world ''c0ffee'' None cached_state)) = 500"
    by (simp add: update_defs eval_defs world_defs state_defs isSelfUpdate_def)
  have p: "update_container w x y s = (fst (update_container w x y s), snd (update_container w x y s))"
    for w x y s by simp
  from update_container_cache_amended[OF p, THEN conjunct2, THEN conjunct1, rule_format, OF a]
  have a': "updateCache (snd (update_container self_world ''c0ffee'' None cached_state))
      ''nginx:latest'' = None"
    by (simp add: i t)
  from update_container_cache_amended[OF p, THEN conjunct2, THEN conjunct1, rule_format, OF b(1)]
  have b': "updateCache (snd (update_container self_world ''c0ffee'' None self_state))
      ''nginx:latest'' = None"
    by (simp add: i t)
  from update_container_cache_amended[OF p, THEN conjunct2, THEN conjunct2, rule_format, OF c]
  have c': "updateCache (snd (update_container pull_refused_world ''c0ffee'' None cached_state))
       = updateCache cached_state" .
  from a a' b(2) b' c c' show ?thesis by simp
qed

text \<open>In a world whose registry refuses the pull, the update of a container with image
  \<open>nginx:latest\<close> fails after the pull was requested, and the cache entry for
  \<open>nginx:latest\<close>, which is both the original and the target image name, is still there.\<close>

theorem update_container_cache_kept_counterexample:
  "resp_status (fst (update_container pull_refused_world ''c0ffee'' None cached_state)) = 500
   \<and> trace (snd (update_container pull_refused_world ''c0ffee'' None cached_state))
       = [EvInspect ''c0ffee'', EvClock, EvPull ''nginx:latest'']
   \<and> updateCache (snd (update_container pull_refused_world ''c0ffee'' None cached_state))
        ''nginx:latest''
       = Some (ErrorResult 0 ''sha256:11'' ''Request timeout'')"
  by (simp add: update_defs eval_defs world_defs state_defs isSelfUpdate_def)


section \<open>Container recreator: the log entry marked by the error handler\<close>

text \<open>
  Claim C10. When the single-container update answers with status 500, its \<^verbatim>\<open>catch\<close>
  handler has looked in \<^verbatim>\<open>updateLogs\<close> for the first entry whose \<^verbatim>\<open>id\<close> is
  \<^verbatim>\<open>String(logIdCounter - 1)\<close> and has set its \<^verbatim>\<open>status\<close> to \<open>failed\<close> and its \<^verbatim>\<open>message\<close> to the
  failure. Either the request had created its own entry, which is then that entry, at
  the front of the list; or it had not, the counter is the one from before the
  request, and the entry is looked for among the entries that were already there.
  The second case is the one of a failing \<^verbatim>\<open>inspect\<close>: the answer is 500, no entry is
  added and no ID is given out, and in every state the server can reach the entry
  marked, if there is one, is the newest entry of the list, left by an earlier request.
\<close>

theorem update_container_failure_log:
  assumes "update_container w containerId targetTag s = (resp, s')"
  shows "(resp_status resp = 500 \<longrightarrow>
           (\<exists>m. resp_details resp = Some m
              \<and> ((logIdCounter s' = logIdCounter s
                   \<and> updateLogs s' =
                       update_first (\<lambda>l. log_id l = String_num (logIdCounter s' - 1))
                         (\<lambda>l. l\<lparr>status := ''failed'',
                                 log_message := ''Failed to update: '' @ m\<rparr>)
                         (updateLogs s))
                \<or> (logIdCounter s' = logIdCounter s + 1
                    \<and> (\<exists>entry. updateLogs s' = entry # updateLogs s
                          \<and> log_id entry = String_num (logIdCounter s' - 1)
                          \<and> status entry = ''failed''
                          \<and> log_message entry = ''Failed to update: '' @ m)))))
     \<and> (\<forall>e. inspectResponse w (trace s) containerId = Inl e \<longrightarrow>
           resp_status resp = 500 \<and> resp_details resp = Some (error_message e)
           \<and> logIdCounter s' = logIdCounter s
           \<and> map log_id (updateLogs s') = map log_id (updateLogs s)
           \<and> updateLogs s' =
                update_first (\<lambda>l. log_id l = String_num (logIdCounter s - 1))
                  (\<lambda>l. l\<lparr>status := ''failed'',
                          log_message := ''Failed to update: '' @ error_message e\<rparr>)
                  (updateLogs s)
           \<and> (reachable s \<longrightarrow>
                 updateLogs s' =
                   (case updateLogs s of
                      [] \<Rightarrow> []
                    | l # ls \<Rightarrow>
                        l\<lparr>status := ''failed'',
                          log_message := ''Failed to update: '' @ error_message e\<rparr> # ls)))"
proof -
  have one: "\<exists>m. resp_details resp = Some m
              \<and> ((logIdCounter s' = logIdCounter s
                   \<and> updateLogs s' =
                       update_first (\<lambda>l. log_id l = String_num (logIdCounter s' - 1))
                         (\<lambda>l. l\<lparr>status := ''failed'',
                                 log_message := ''Failed to update: '' @ m\<rparr>)
                         (updateLogs s))
                \<or> (logIdCounter s' = logIdCounter s + 1
                    \<and> (\<exists>entry. updateLogs s' = entry # updateLogs s
                          \<and> log_id entry = String_num (logIdCounter s' - 1)
                          \<and> status entry = ''failed''
                          \<and> log_message entry = ''Failed to update: '' @ m)))"
    if "resp_status resp = 500"
    using update_container_failure[OF assms that] by auto
  have two: "resp_status resp = 500 \<and> resp_details resp = Some (error_message e)
           \<and> logIdCounter s' = logIdCounter s
           \<and> map log_id (updateLogs s') = map log_id (updateLogs s)
           \<and> updateLogs s' =
                update_first (\<lambda>l. log_id l = String_num (logIdCounter s - 1))
                  (\<lambda>l. l\<lparr>status := ''failed'',
                          log_message := ''Failed to update: '' @ error_message e\<rparr>)
                  (updateLogs s)
           \<and> (reachable s \<longrightarrow>
                 updateLogs s' =
                   (case updateLogs s of
                      [] \<Rightarrow> []
                    | l # ls \<Rightarrow>
                        l\<lparr>status := ''failed'',
                          log_message := ''Failed to update: '' @ error_message e\<rparr> # ls))"
    if i: "inspectResponse w (trace s) containerId = Inl e" for e
  proof -
    from assms i have "update_failed e (emit (EvInspect containerId) s) = (resp, s')"
      by (simp add: update_container_def inspect_def)
    note f = update_failed_facts[OF this]
    have "updateLogs s' =
                   (case updateLogs s of
                      [] \<Rightarrow> []
                    | l # ls \<Rightarrow>
                        l\<lparr>status := ''failed'',
                          log_message := ''Failed to update: '' @ error_message e\<rparr> # ls)"
      if "reachable s"
      using reachable_newest[OF that] f
      by (auto simp: newest_has_last_id_def split: list.splits)
    with f show ?thesis by simp
  qed
  from one two show ?thesis by blast
qed

text \<open>A first request replaces the container \<open>c0ffee\<close> and leaves an entry with status
  \<open>success\<close>. A second request, for a container the daemon does not know, fails at
  \<^verbatim>\<open>inspect\<close>: it adds no entry, and the entry of the first request is now \<open>failed\<close>. A
  request whose pull is refused marks its own entry.\<close>

theorem update_container_failure_log_witness:
  "reachable (snd (update_container self_world ''c0ffee'' None initial_state))
   \<and> map status (updateLogs (snd (update_container self_world ''c0ffee'' None initial_state)))
       = [''success'']
   \<and> map (\<lambda>l. (log_id l, containerName l, status l, log_message l))
       (updateLogs (snd (update_container offline_world ''dead'' None
          (snd (update_container self_world ''c0ffee'' None initial_state)))))
       = [(''1'', ''dockermaid'', ''failed'', ''Failed to update: no such container'')]
   \<and> map (\<lambda>l. (log_id l, status l, log_message l))
       (updateLogs (snd (update_container pull_refused_world ''c0ffee'' None initial_state)))
       = [(''1'', ''failed'', ''Failed to update: pull access denied'')]"
proof -
  let ?s1 = "snd (update_container self_world ''c0ffee'' None initial_state)"
  have r: "reachable ?s1"
    by (rule reachable_update[OF reachable_initial])
  have l1: "map (\<lambda>l. (log_id l, containerName l, status l)) (updateLogs ?s1)
      = [(''1'', ''dockermaid'', ''success'')]"
    by (simp add: update_defs eval_defs world_defs isSelfUpdate_def)
  have p: "update_container w x y s = (fst (update_container w x y s), snd (update_container w x y s))"
    for w x y s by simp
  have i: "inspectResponse offline_world (trace ?s1) ''dead'' = Inl (JsError ''no such container'')"
    by (simp add: offline_world_def)
  from update_container_failure_log[OF p, THEN conjunct2, rule_format, OF i]
  have 2: "updateLogs (snd (update_container offline_world ''dead'' None ?s1)) =
      (case updateLogs ?s1 of [] \<Rightarrow> []
       | l # ls \<Rightarrow> l\<lparr>status := ''failed'',
             log_message := ''Failed to update: '' @ error_message (JsError ''no such container'')\<rparr> # ls)"
    using r by blast
  have a: "map (\<lambda>l. (log_id l, containerName l, status l, log_message l))
       (updateLogs (snd (update_container offline_world ''dead'' None ?s1)))
       = [(''1'', ''dockermaid'', ''failed'', ''Failed to update: no such container'')]"
    unfolding 2 using l1 by (auto split: list.splits)
  have st: "resp_status (fst (update_container pull_refused_world ''c0ffee'' None initial_state)) = 500"
    "logIdCounter (snd (update_container pull_refused_world ''c0ffee'' None initial_state)) = 2"
    "updateLogs initial_state = []" "logIdCounter initial_state = 1"
    by (simp_all add: update_defs eval_defs world_defs isSelfUpdate_def)
  have d: "resp_details (fst (update_container pull_refused_world ''c0ffee'' None initial_state))
      = Some ''pull access denied''"
    by (simp add: update_defs eval_defs world_defs isSelfUpdate_def)
  from update_container_failure_log[OF p, THEN conjunct1, rule_format, OF st(1)]
  have b: "map (\<lambda>l. (log_id l, status l, log_message l))
       (updateLogs (snd (update_container pull_refused_world ''c0ffee'' None initial_state)))
       = [(''1'', ''failed'', ''Failed to update: pull access denied'')]"
    unfolding st(2,3,4) d by (auto simp: String_num_def)
  have l1': "map status (updateLogs ?s1) = [''success'']"
    using l1 by (auto simp: map_eq_Cons_conv)
  from r l1' a b show ?thesis by simp
qed


section \<open>Self-update guard: what a request does to the server's own container\<close>

text \<open>
  Claim C1, as amended. \<^bold>\<open>Single update.\<close> When the container of the request is the one
  the guard matches, the request asks the daemon for nothing but the inspection, the
  list of containers that \<^verbatim>\<open>getOwnContainerId\<close> may need, and the pull of the target image:
  it never stops, removes, creates or starts a container. When the answer is 200 it
  carries \<^verbatim>\<open>selfUpdate: true\<close> and \<^verbatim>\<open>manualRestartRequired: true\<close>, and the entry of the
  request, the newest of \<^verbatim>\<open>updateLogs\<close>, has status \<open>success\<close> and a message that asks
  for the manual restart. When the pull fails the answer is 500 and has no such flag.
  With a pull that succeeds the answer is 200.

  \<^bold>\<open>Update all.\<close> No container the guard matches is stopped or removed. The results
  list the containers in order; a matched container is reported as \<open>skipped\<close> or as
  \<open>failed\<close>; the entries with \<^verbatim>\<open>selfUpdate: true\<close> are skipped containers the guard
  matches; \<^verbatim>\<open>selfUpdateSkipped\<close> says whether there is such an entry, and when it is set
  \<^verbatim>\<open>selfUpdateContainerName\<close> is a non-empty name.

  \<^bold>\<open>One container of update all.\<close> For a matched container the iteration asks for no
  pull and for none of the four calls of a recreation, and creates no log entry. Its
  result carries \<^verbatim>\<open>selfUpdate: true\<close>, with \<^verbatim>\<open>selfUpdateSkipped\<close> set and
  \<^verbatim>\<open>selfUpdateContainerName\<close> the name of the container, exactly when the inspection
  succeeds, the image name is not a bare \<open>sha256:\<close> ID and the check reports an update.
  Otherwise the container is reported as any other one that is skipped or has failed,
  and the two self-update values are left as they were.
\<close>

theorem self_update_amended:
  "(update_container w containerId targetTag s = (resp, s')
      \<and> inspectResponse w (trace s) containerId = Inr info
      \<and> isSelfUpdate (fst (getOwnContainerId w (emit (EvInspect containerId) s))) containerId
    \<longrightarrow>
      (\<exists>evs. trace s' = trace s @ evs
            \<and> set evs \<subseteq> {EvInspect containerId, EvListContainers True, EvClock,
                           EvPull (targetImageName_of (Config_Image info) targetTag)}
            \<and> (\<forall>e \<in> set evs. \<not> is_recreation e))
      \<and> (resp_status resp = 200 \<longrightarrow>
            resp_selfUpdate resp = Some True \<and> resp_manualRestartRequired resp = Some True
            \<and> (\<exists>l ls. updateLogs s' = l # ls \<and> resp_log resp = Some l
                  \<and> status l = ''success''
                  \<and> log_message l = ''Image pulled for '' @ strip_slash (Name info)
                       @ ''. Please restart the container manually using: ''
                       @ ''docker compose up -d --force-recreate dockermaid''))
      \<and> (resp_status resp = 500 \<longrightarrow> resp_selfUpdate resp = None)
      \<and> ((\<forall>tr imageName. pullResponse w tr imageName = Inr ()) \<longrightarrow> resp_status resp = 200))
   \<and> (update_all w s = (BatchOk res msg, s2)
        \<and> listContainersResponse w (trace s) False = Inr containers
        \<and> ownId = fst (getOwnContainerId w (emit (EvListContainers False) s))
      \<longrightarrow>
        (\<exists>evs. trace s2 = trace s @ evs
           \<and> (\<forall>x. EvStop x \<in> set evs \<or> EvRemove x \<in> set evs \<longrightarrow> \<not> isSelfUpdate ownId x))
        \<and> map item_containerId (results res) = map container_Id containers
        \<and> (\<forall>item \<in> set (results res). isSelfUpdate ownId (item_containerId item)
              \<longrightarrow> item_status item = ''skipped'' \<or> item_status item = ''failed'')
        \<and> (\<forall>item \<in> set (results res). item_selfUpdate item = Some True
              \<longrightarrow> item_status item = ''skipped'' \<and> isSelfUpdate ownId (item_containerId item))
        \<and> (selfUpdateSkipped res \<longleftrightarrow>
              (\<exists>item \<in> set (results res). item_selfUpdate item = Some True))
        \<and> (selfUpdateSkipped res \<longrightarrow> (\<exists>n. selfUpdateContainerName res = Some n \<and> n \<noteq> [])))
   \<and> (update_all_step w own c (acc, s) = (acc', s3) \<and> isSelfUpdate own (container_Id c)
      \<longrightarrow>
        (\<exists>evs. trace s3 = trace s @ evs
           \<and> (\<forall>e \<in> set evs. \<not> is_recreation e \<and> (\<forall>i. e \<noteq> EvPull i)))
        \<and> logIdCounter s3 = logIdCounter s
        \<and> map log_id (updateLogs s3) = map log_id (updateLogs s)
        \<and> (\<exists>item. results acc' = results acc @ [item]
              \<and> item_containerId item = container_Id c
              \<and> (item_status item = ''skipped'' \<or> item_status item = ''failed'')
              \<and> (item_selfUpdate item = Some True \<longleftrightarrow>
                   (\<exists>info. inspectResponse w (trace s) (container_Id c) = Inr info
                      \<and> \<not> startsWith (Config_Image info) ''sha256:''
                      \<and> hasUpdate_of (fst (checkImageUpdate w (Config_Image info) (Image info)
                           (emit (EvInspect (container_Id c)) s)))))
              \<and> (item_selfUpdate item = Some True \<longrightarrow>
                   item_status item = ''skipped'' \<and> selfUpdateSkipped acc'
                   \<and> selfUpdateContainerName acc' = Some (item_containerName item)
                   \<and> item_containerName item \<noteq> [])
              \<and> (item_selfUpdate item \<noteq> Some True \<longrightarrow>
                   selfUpdateSkipped acc' = selfUpdateSkipped acc
                   \<and> selfUpdateContainerName acc' = selfUpdateContainerName acc
                   \<and> (item_status item = ''failed''
                      \<or> item_message item = Some ''No image tag''
                      \<or> item_message item = Some ''No update available''))))"
proof (rule conjI[OF _ conjI]; rule impI; elim conjE)
  assume "update_container w containerId targetTag s = (resp, s')"
    "inspectResponse w (trace s) containerId = Inr info"
    "isSelfUpdate (fst (getOwnContainerId w (emit (EvInspect containerId) s))) containerId"
  from update_container_self[OF this]
  show "(\<exists>evs. trace s' = trace s @ evs
            \<and> set evs \<subseteq> {EvInspect containerId, EvListContainers True, EvClock,
                           EvPull (targetImageName_of (Config_Image info) targetTag)}
            \<and> (\<forall>e \<in> set evs. \<not> is_recreation e))
      \<and> (resp_status resp = 200 \<longrightarrow>
            resp_selfUpdate resp = Some True \<and> resp_manualRestartRequired resp = Some True
            \<and> (\<exists>l ls. updateLogs s' = l # ls \<and> resp_log resp = Some l
                  \<and> status l = ''success''
                  \<and> log_message l = ''Image pulled for '' @ strip_slash (Name info)
                       @ ''. Please restart the container manually using: ''
                       @ ''docker compose up -d --force-recreate dockermaid''))
      \<and> (resp_status resp = 500 \<longrightarrow> resp_selfUpdate resp = None)
      \<and> ((\<forall>tr imageName. pullResponse w tr imageName = Inr ()) \<longrightarrow> resp_status resp = 200)" .
next
  assume "update_all w s = (BatchOk res msg, s2)"
    "listContainersResponse w (trace s) False = Inr containers"
    "ownId = fst (getOwnContainerId w (emit (EvListContainers False) s))"
  from update_all_facts[OF this]
  show "(\<exists>evs. trace s2 = trace s @ evs
           \<and> (\<forall>x. EvStop x \<in> set evs \<or> EvRemove x \<in> set evs \<longrightarrow> \<not> isSelfUpdate ownId x))
        \<and> map item_containerId (results res) = map container_Id containers
        \<and> (\<forall>item \<in> set (results res). isSelfUpdate ownId (item_containerId item)
              \<longrightarrow> item_status item = ''skipped'' \<or> item_status item = ''failed'')
        \<and> (\<forall>item \<in> set (results res). item_selfUpdate item = Some True
              \<longrightarrow> item_status item = ''skipped'' \<and> isSelfUpdate ownId (item_containerId item))
        \<and> (selfUpdateSkipped res \<longleftrightarrow>
              (\<exists>item \<in> set (results res). item_selfUpdate item = Some True))
        \<and> (selfUpdateSkipped res \<longrightarrow> (\<exists>n. selfUpdateContainerName res = Some n \<and> n \<noteq> []))" .
next
  assume step: "update_all_step w own c (acc, s) = (acc', s3)"
    and g: "isSelfUpdate own (container_Id c)"
  from update_all_step_events[OF step] g
  have ev: "\<exists>evs. trace s3 = trace s @ evs
           \<and> (\<forall>e \<in> set evs. \<not> is_recreation e \<and> (\<forall>i. e \<noteq> EvPull i))"
    by blast
  from update_all_step_self[OF step g] obtain item where
    l: "logIdCounter s3 = logIdCounter s"
      "map log_id (updateLogs s3) = map log_id (updateLogs s)"
    and r: "results acc' = results acc @ [item]"
    and x: "item_selfUpdate item = Some True \<longleftrightarrow>
              (\<exists>info. inspectResponse w (trace s) (container_Id c) = Inr info
                 \<and> \<not> startsWith (Config_Image info) ''sha256:''
                 \<and> hasUpdate_of (fst (checkImageUpdate w (Config_Image info) (Image info)
                      (emit (EvInspect (container_Id c)) s))))"
    and n: "item_selfUpdate item \<noteq> Some True \<longrightarrow>
              selfUpdateSkipped acc' = selfUpdateSkipped acc
              \<and> selfUpdateContainerName acc' = selfUpdateContainerName acc
              \<and> (item_status item = ''failed''
                 \<or> item_message item = Some ''No image tag''
                 \<or> item_message item = Some ''No update available'')"
    by blast
  from update_all_step_results[OF step] r g
  have y: "item_containerId item = container_Id c"
    "item_status item = ''skipped'' \<or> item_status item = ''failed''"
    "item_selfUpdate item = Some True \<longrightarrow>
       item_status item = ''skipped'' \<and> selfUpdateSkipped acc'
       \<and> selfUpdateContainerName acc' = Some (item_containerName item)
       \<and> item_containerName item \<noteq> []"
    by auto
  have "\<exists>item. results acc' = results acc @ [item]
              \<and> item_containerId item = container_Id c
              \<and> (item_status item = ''skipped'' \<or> item_status item = ''failed'')
              \<and> (item_selfUpdate item = Some True \<longleftrightarrow>
                   (\<exists>info. inspectResponse w (trace s) (container_Id c) = Inr info
                      \<and> \<not> startsWith (Config_Image info) ''sha256:''
                      \<and> hasUpdate_of (fst (checkImageUpdate w (Config_Image info) (Image info)
                           (emit (EvInspect (container_Id c)) s)))))
              \<and> (item_selfUpdate item = Some True \<longrightarrow>
                   item_status item = ''skipped'' \<and> selfUpdateSkipped acc'
                   \<and> selfUpdateContainerName acc' = Some (item_containerName item)
                   \<and> item_containerName item \<noteq> [])
              \<and> (item_selfUpdate item \<noteq> Some True \<longrightarrow>
                   selfUpdateSkipped acc' = selfUpdateSkipped acc
                   \<and> selfUpdateContainerName acc' = selfUpdateContainerName acc
                   \<and> (item_status item = ''failed''
                      \<or> item_message item = Some ''No image tag''
                      \<or> item_message item = Some ''No update available''))"
    by (rule exI[of _ item]) (intro conjI r y x n)
  with ev l
  show "(\<exists>evs. trace s3 = trace s @ evs
           \<and> (\<forall>e \<in> set evs. \<not> is_recreation e \<and> (\<forall>i. e \<noteq> EvPull i)))
        \<and> logIdCounter s3 = logIdCounter s
        \<and> map log_id (updateLogs s3) = map log_id (updateLogs s)
        \<and> (\<exists>item. results acc' = results acc @ [item]
              \<and> item_containerId item = container_Id c
              \<and> (item_status item = ''skipped'' \<or> item_status item = ''failed'')
              \<and> (item_selfUpdate item = Some True \<longleftrightarrow>
                   (\<exists>info. inspectResponse w (trace s) (container_Id c) = Inr info
                      \<and> \<not> startsWith (Config_Image info) ''sha256:''
                      \<and> hasUpdate_of (fst (checkImageUpdate w (Config_Image info) (Image info)
                           (emit (EvInspect (container_Id c)) s)))))
              \<and> (item_selfUpdate item = Some True \<longrightarrow>
                   item_status item = ''skipped'' \<and> selfUpdateSkipped acc'
                   \<and> selfUpdateContainerName acc' = Some (item_containerName item)
                   \<and> item_containerName item \<noteq> [])
              \<and> (item_selfUpdate item \<noteq> Some True \<longrightarrow>
                   selfUpdateSkipped acc' = selfUpdateSkipped acc
                   \<and> selfUpdateContainerName acc' = selfUpdateContainerName acc
                   \<and> (item_status item = ''failed''
                      \<or> item_message item = Some ''No image tag''
                      \<or> item_message item = Some ''No update available'')))"
    by blast
qed


end
